theory Spec2Isabelle
  imports Complex_Main
begin

section \<open>Numbers and built-ins of the host language\<close>

text \<open>
  Python floats are modelled as the reals they approximate: every comparison and every
  arithmetic step of the source is taken exactly. The counts read from the database are
  Python integers (\<open>int\<close>).

  \<open>round(x, n)\<close> rounds to \<open>n\<close> decimals, a tie going to the even neighbour.
\<close>

definition round_half_even :: "real \<Rightarrow> int" where
  "round_half_even x =
     (let f = \<lfloor>x\<rfloor>; d = x - of_int f
      in if d < 1 / 2 then f
         else if 1 / 2 < d then f + 1
         else if even f then f else f + 1)"

definition py_round :: "real \<Rightarrow> nat \<Rightarrow> real" where
  "py_round x ndigits = of_int (round_half_even (x * 10 ^ ndigits)) / 10 ^ ndigits"

text \<open>\<open>xs[:n]\<close>: a negative bound counts from the end of the list.\<close>

definition py_slice_to :: "int \<Rightarrow> 'a list \<Rightarrow> 'a list" where
  "py_slice_to n xs =
     (if 0 \<le> n then take (nat n) xs else take (length xs - nat (- n)) xs)"

text \<open>
  \<open>max(items, key=k)\<close>: the first of the maximal elements in iteration order; on an empty
  sequence Python raises, here \<open>None\<close>.
\<close>

definition py_max_by :: "('a \<Rightarrow> real) \<Rightarrow> 'a list \<Rightarrow> 'a option" where
  "py_max_by k xs =
     (case xs of [] \<Rightarrow> None
      | x # rest \<Rightarrow> Some (foldl (\<lambda>best y. if k best < k y then y else best) x rest))"

text \<open>
  \<open>sorted(xs, key=k, reverse=True)\<close> and \<open>xs.sort(key=k, reverse=True)\<close>: descending in
  the key, and stable (elements with equal keys keep their order), which is an insertion
  sort on the negated key.
\<close>

definition py_sorted_desc :: "('a \<Rightarrow> real) \<Rightarrow> 'a list \<Rightarrow> 'a list" where
  "py_sorted_desc k xs = sort_key (\<lambda>x. - k x) xs"

text \<open>\<open>d.get(key, default)\<close> on a dictionary.\<close>

definition dict_get :: "('k \<rightharpoonup> 'v) \<Rightarrow> 'k \<Rightarrow> 'v \<Rightarrow> 'v" where
  "dict_get d key dflt = (case d key of None \<Rightarrow> dflt | Some v \<Rightarrow> v)"


section \<open>Analytics service\<close>

subsection \<open>\<open>AnalyticsService.detect_anomalies\<close>\<close>

text \<open>
  The two queries of the source group the incidents by location; their rows
  \<open>(location, count)\<close> are the argument \<open>rows\<close>. The second query keeps the groups with
  \<open>count > threshold\<close>. The fields of an anomaly are the keys \<open>location\<close>, \<open>count\<close>,
  \<open>mean\<close>, \<open>threshold\<close> and \<open>severity\<close> of the source's dictionary.
\<close>

record anomaly =
  anomaly_location :: string
  anomaly_count :: int
  anomaly_mean :: real
  anomaly_threshold :: real
  anomaly_severity :: string

definition detect_anomalies :: "(string \<times> int) list \<Rightarrow> real \<Rightarrow> anomaly list" where
  "detect_anomalies rows threshold_multiplier =
     (let location_counts = map snd rows
      in if location_counts = [] then []
         else
           let mean_count = real_of_int (sum_list location_counts) / real (length location_counts);
               threshold = mean_count * threshold_multiplier
           in map (\<lambda>row. \<lparr>anomaly_location = fst row,
                           anomaly_count = snd row,
                           anomaly_mean = py_round mean_count 2,
                           anomaly_threshold = py_round threshold 2,
                           anomaly_severity =
                             (if threshold * 1.5 < real_of_int (snd row) then ''high'' else ''medium'')\<rparr>)
                  (filter (\<lambda>row. threshold < real_of_int (snd row)) rows))"


subsection \<open>\<open>AnalyticsService._detect_daily_spikes\<close>\<close>

text \<open>
  \<open>daily_counts\<close> are the rows \<open>(date, count)\<close> of the query, one per day, in date order.
  The date is kept as the query returns it.
\<close>

record 'd spike =
  spike_date :: 'd
  spike_count :: int
  spike_mean :: real
  spike_threshold_value :: real
  spike_severity :: string

definition spike_step :: "real \<Rightarrow> real \<Rightarrow> real \<Rightarrow> 'd spike list \<Rightarrow> 'd \<times> int \<Rightarrow> 'd spike list" where
  "spike_step mean_count std_dev threshold spikes row =
     (case row of (date, count) \<Rightarrow>
        if threshold < real_of_int count
        then spikes @ [\<lparr>spike_date = date,
                        spike_count = count,
                        spike_mean = py_round mean_count 1,
                        spike_threshold_value = py_round threshold 1,
                        spike_severity =
                          (if mean_count + 4 * std_dev < real_of_int count then ''high'' else ''medium'')\<rparr>]
        else spikes)"

definition detect_daily_spikes :: "('d \<times> int) list \<Rightarrow> real \<Rightarrow> 'd spike list" where
  "detect_daily_spikes daily_counts spike_threshold =
     (if length daily_counts < 3 then []
      else
        let counts = map snd daily_counts;
            mean_count = real_of_int (sum_list counts) / real (length counts);
            variance = sum_list (map (\<lambda>x. (real_of_int x - mean_count) ^ 2) counts) / real (length counts);
            std_dev = sqrt variance;
            threshold = mean_count + spike_threshold * std_dev
        in foldl (spike_step mean_count std_dev threshold) [] daily_counts)"

text \<open>The default of the parameter \<open>spike_threshold\<close>, which \<open>analyze_trends\<close> leaves in place.\<close>

definition spike_threshold_default :: real where
  "spike_threshold_default = 2.5"


subsection \<open>\<open>AnalyticsService.analyze_trends\<close>\<close>

text \<open>
  \<open>current_counts\<close> and \<open>previous_counts\<close> are the dictionaries built from the two window
  queries. The loop runs over a Python set, whose order is not fixed: the order is the
  argument \<open>all_waste_types\<close>. A trend item gets its key \<open>severity\<close> only on the rising and
  on the falling branch.
\<close>

record new_type_item =
  new_waste_type :: string
  new_count :: int
  new_trend :: string

record trend_item =
  waste_type :: string
  current_count :: int
  previous_count :: int
  change_percentage :: real
  change_absolute :: int
  trend :: string
  severity :: "string option"

record trend_lists =
  rising_trends :: "trend_item list"
  falling_trends :: "trend_item list"
  stable_trends :: "trend_item list"
  new_types :: "new_type_item list"

definition percentage_change :: "int \<Rightarrow> int \<Rightarrow> real" where
  "percentage_change current previous =
     (real_of_int (current - previous) / real_of_int previous) * 100"

definition trend_step ::
  "(string \<rightharpoonup> int) \<Rightarrow> (string \<rightharpoonup> int) \<Rightarrow> trend_lists \<Rightarrow> string \<Rightarrow> trend_lists" where
  "trend_step current_counts previous_counts acc wt =
     (let current = dict_get current_counts wt 0;
          previous = dict_get previous_counts wt 0
      in if previous = 0 \<and> 0 < current
         then acc\<lparr>new_types := new_types acc @
                    [\<lparr>new_waste_type = wt, new_count = current, new_trend = ''new''\<rparr>]\<rparr>
         else if 0 < previous
         then
           let change = percentage_change current previous;
               item = \<lparr>waste_type = wt,
                       current_count = current,
                       previous_count = previous,
                       change_percentage = py_round change 1,
                       change_absolute = current - previous,
                       trend = '''',
                       severity = None\<rparr>
           in if 20 < change
              then acc\<lparr>rising_trends := rising_trends acc @
                         [item\<lparr>trend := ''rising'',
                               severity := Some (if 50 < change then ''high'' else ''medium'')\<rparr>]\<rparr>
              else if change < - 20
              then acc\<lparr>falling_trends := falling_trends acc @
                         [item\<lparr>trend := ''falling'',
                               severity := Some (if change < - 50 then ''high'' else ''medium'')\<rparr>]\<rparr>
              else acc\<lparr>stable_trends := stable_trends acc @ [item\<lparr>trend := ''stable''\<rparr>]\<rparr>
         else acc)"

record 'd trend_analysis =
  result_rising :: "trend_item list"
  result_falling :: "trend_item list"
  result_stable :: "trend_item list"
  result_new :: "new_type_item list"
  result_spikes :: "'d spike list"

definition analyze_trends ::
  "(string \<rightharpoonup> int) \<Rightarrow> (string \<rightharpoonup> int) \<Rightarrow> string list \<Rightarrow> ('d \<times> int) list \<Rightarrow> 'd trend_analysis" where
  "analyze_trends current_counts previous_counts all_waste_types daily_counts =
     (let acc = foldl (trend_step current_counts previous_counts)
                  \<lparr>rising_trends = [], falling_trends = [], stable_trends = [], new_types = []\<rparr>
                  all_waste_types
      in \<lparr>result_rising = py_sorted_desc (\<lambda>x. \<bar>change_percentage x\<bar>) (rising_trends acc),
          result_falling = py_sorted_desc (\<lambda>x. \<bar>change_percentage x\<bar>) (falling_trends acc),
          result_stable = stable_trends acc,
          result_new = new_types acc,
          result_spikes = detect_daily_spikes daily_counts spike_threshold_default\<rparr>)"


section \<open>AI service\<close>

subsection \<open>Strings\<close>

text \<open>
  Text is modelled over ASCII characters: \<open>str.lower\<close> maps \<open>A\<close>..\<open>Z\<close> to \<open>a\<close>..\<open>z\<close>,
  \<open>str.isalpha\<close> holds for a non-empty string of letters, \<open>k in s\<close> is the substring
  test, and \<open>s.split()\<close> cuts at runs of white space.
\<close>

definition lower_char :: "char \<Rightarrow> char" where
  "lower_char c =
     (case map_of (zip ''ABCDEFGHIJKLMNOPQRSTUVWXYZ'' ''abcdefghijklmnopqrstuvwxyz'') c of
        None \<Rightarrow> c | Some l \<Rightarrow> l)"

definition str_lower :: "string \<Rightarrow> string" where
  "str_lower s = map lower_char s"



fun str_contains :: "string \<Rightarrow> string \<Rightarrow> bool" where
  "str_contains k [] = (k = [])"
| "str_contains k (c # cs) = (take (length k) (c # cs) = k \<or> str_contains k cs)"

definition is_space :: "char \<Rightarrow> bool" where
  "is_space c \<longleftrightarrow>
     c \<in> set [CHR '' '', CHR 0x09, CHR 0x0A, CHR 0x0B, CHR 0x0C, CHR 0x0D,
               CHR 0x1C, CHR 0x1D, CHR 0x1E, CHR 0x1F]"

fun split_from :: "string \<Rightarrow> string \<Rightarrow> string list" where
  "split_from cur [] = (if cur = [] then [] else [cur])"
| "split_from cur (c # cs) =
     (if is_space c then (if cur = [] then split_from [] cs else cur # split_from [] cs)
      else split_from (cur @ [c]) cs)"

definition str_split :: "string \<Rightarrow> string list" where
  "str_split s = split_from [] s"


subsection \<open>The keyword table \<open>AIService.WASTE_CATEGORIES\<close>\<close>

definition WASTE_CATEGORIES :: "(string \<times> string list) list" where
  "WASTE_CATEGORIES =
     [(''plastic'',
        [''plastic'', ''bottle'', ''bag'', ''packaging'', ''container'', ''wrapper'',
         ''polythene'', ''polyethylene'', ''pet'', ''hdpe'', ''pvc'', ''straw'',
         ''cup'', ''lid'', ''film'']),
      (''organic'',
        [''food'', ''organic'', ''kitchen'', ''vegetable'', ''fruit'', ''compost'',
         ''biodegradable'', ''garden'', ''plant'', ''waste'', ''banana'', ''apple'',
         ''leftover'', ''spoiled'', ''rotten'']),
      (''paper'',
        [''paper'', ''cardboard'', ''newspaper'', ''magazine'', ''box'', ''carton'',
         ''tissue'', ''document'', ''book'', ''notebook'', ''envelope'']),
      (''glass'',
        [''glass'', ''bottle'', ''jar'', ''window'', ''broken glass'', ''mirror'',
         ''wine bottle'', ''beer bottle'', ''glassware'']),
      (''metal'',
        [''metal'', ''can'', ''aluminum'', ''steel'', ''tin'', ''iron'', ''copper'',
         ''foil'', ''wire'', ''scrap metal'', ''battery'']),
      (''electronic'',
        [''electronic'', ''e-waste'', ''computer'', ''phone'', ''mobile'', ''laptop'',
         ''television'', ''tv'', ''monitor'', ''cable'', ''charger'', ''battery'',
         ''appliance'', ''device'', ''gadget'']),
      (''hazardous'',
        [''chemical'', ''hazardous'', ''toxic'', ''paint'', ''oil'', ''solvent'',
         ''battery'', ''pesticide'', ''medicine'', ''pharmaceutical'', ''dangerous'',
         ''flammable'', ''corrosive'']),
      (''textile'',
        [''clothing'', ''fabric'', ''textile'', ''cloth'', ''clothes'', ''shirt'',
         ''pants'', ''dress'', ''shoes'', ''leather'', ''rag'']),
      (''construction'',
        [''construction'', ''demolition'', ''concrete'', ''brick'', ''wood'',
         ''debris'', ''rubble'', ''tile'', ''drywall'', ''lumber'']),
      (''mixed'',
        [''mixed'', ''general'', ''household'', ''municipal'', ''various'',
         ''assorted'', ''multiple'', ''diverse''])]"


subsection \<open>The encoder and the cosine similarity\<close>

text \<open>
  The sentence encoder is a collaborator: a function from a text to a vector that may
  raise (\<open>None\<close>). The library's \<open>cosine_similarity\<close> of two row vectors divides each
  by its Euclidean norm, a zero norm being replaced by one, and multiplies them; it raises
  on rows of different lengths and on rows without a feature.
\<close>

type_synonym encoder = "string \<Rightarrow> real list option"

definition dot :: "real list \<Rightarrow> real list \<Rightarrow> real" where
  "dot x y = sum_list (map2 (*) x y)"

definition l2_norm :: "real list \<Rightarrow> real" where
  "l2_norm x = sqrt (dot x x)"

definition normalize_row :: "real list \<Rightarrow> real list" where
  "normalize_row x = (let n = l2_norm x in map (\<lambda>v. v / (if n = 0 then 1 else n)) x)"

definition cosine_similarity :: "real list \<Rightarrow> real list \<Rightarrow> real option" where
  "cosine_similarity x y =
     (if length x \<noteq> length y \<or> x = [] then None
      else Some (dot (normalize_row x) (normalize_row y)))"


subsection \<open>\<open>AIService.classify_waste_type\<close>\<close>

record ai_service =
  model :: "encoder option"
  stopwords :: "string set"
  category_embeddings :: "(string \<times> real list) list"

datatype error = RuntimeError | EncodingFailure

text \<open>The loop that fills \<open>semantic_scores\<close>; \<open>None\<close> when a similarity raises.\<close>

fun semantic_scores :: "real list \<Rightarrow> (string \<times> real list) list \<Rightarrow> (string \<times> real) list option" where
  "semantic_scores description_embedding [] = Some []"
| "semantic_scores description_embedding ((category, category_embedding) # rest) =
     (case cosine_similarity description_embedding category_embedding of
        None \<Rightarrow> None
      | Some similarity \<Rightarrow>
          (case semantic_scores description_embedding rest of
             None \<Rightarrow> None
           | Some scores \<Rightarrow> Some ((category, similarity) # scores)))"

text \<open>The inner loop over the keywords of one category: the pair \<open>(score, matches)\<close>.\<close>

definition keyword_step :: "string \<Rightarrow> nat \<times> nat \<Rightarrow> string \<Rightarrow> nat \<times> nat" where
  "keyword_step description_lower sm keyword =
     (if str_contains keyword description_lower
      then (fst sm + length (str_split keyword), snd sm + 1)
      else sm)"

definition category_step ::
  "string \<Rightarrow> (string \<times> real) list \<Rightarrow> string \<times> string list \<Rightarrow> (string \<times> real) list" where
  "category_step description_lower scores entry =
     (case entry of (category, keywords) \<Rightarrow>
        (case foldl (keyword_step description_lower) (0, 0) keywords of (score, matches) \<Rightarrow>
           if 0 < matches then scores @ [(category, real score / real (length keywords))]
           else scores))"

definition keyword_scores :: "string \<Rightarrow> (string \<times> real) list" where
  "keyword_scores description_lower = foldl (category_step description_lower) [] WASTE_CATEGORIES"

definition classify_by_keywords_only :: "string \<Rightarrow> string \<times> real" where
  "classify_by_keywords_only description =
     (let description_lower = str_lower description;
          scores = keyword_scores description_lower
      in case py_max_by snd scores of
           None \<Rightarrow> (''unclassified'', 0)
         | Some best_category \<Rightarrow>
             (let max_score = snd best_category;
                  confidence = min (max_score * 2) 1
              in (fst best_category, py_round confidence 2)))"

text \<open>The body of the \<open>try\<close> block; \<open>None\<close> when the encoder or a similarity raises.\<close>

definition classify_semantic :: "encoder \<Rightarrow> (string \<times> real list) list \<Rightarrow> string \<Rightarrow> (string \<times> real) option" where
  "classify_semantic encode embeddings description =
     (case encode description of
        None \<Rightarrow> None
      | Some description_embedding \<Rightarrow>
          (case semantic_scores description_embedding embeddings of
             None \<Rightarrow> None
           | Some scores \<Rightarrow>
               (case py_max_by snd scores of
                  None \<Rightarrow> None
                | Some (semantic_category, semantic_confidence) \<Rightarrow>
                    (let description_lower = str_lower description;
                         kw_scores = keyword_scores description_lower
                     in if 0.50 \<le> semantic_confidence
                        then
                          (let keyword_boost = dict_get (map_of kw_scores) semantic_category 0 * 0.2;
                               final_confidence = min (semantic_confidence + keyword_boost) 1
                           in Some (semantic_category, py_round final_confidence 2))
                        else
                          (case py_max_by snd kw_scores of
                             Some (keyword_category, best_score) \<Rightarrow>
                               (let keyword_confidence = min (best_score * 2) 1;
                                    final_confidence =
                                      (if semantic_category = keyword_category
                                       then min (keyword_confidence + semantic_confidence * 0.3) 1
                                       else keyword_confidence)
                                in Some (keyword_category, py_round final_confidence 2))
                           | None \<Rightarrow> Some (semantic_category, py_round semantic_confidence 2))))))"

definition classify_waste_type :: "ai_service \<Rightarrow> string \<Rightarrow> error + string \<times> real" where
  "classify_waste_type self description =
     (case model self of
        None \<Rightarrow> Inl RuntimeError
      | Some encode \<Rightarrow>
          if category_embeddings self = [] then Inl RuntimeError
          else
            (case classify_semantic encode (category_embeddings self) description of
               Some result \<Rightarrow> Inr result
             | None \<Rightarrow> Inr (classify_by_keywords_only description)))"


subsection \<open>\<open>AIService.initialize\<close>\<close>

definition WASTE_CATEGORY_DESCRIPTIONS :: "(string \<times> string) list" where
  "WASTE_CATEGORY_DESCRIPTIONS =
     [(''plastic'', ''Plastic waste including bottles, bags, packaging, containers, wrappers, polythene, polyethylene, PET bottles, HDPE containers, PVC materials, straws, cups, lids, plastic film, and synthetic polymers''),
      (''organic'', ''Organic and biodegradable waste including food scraps, kitchen waste, vegetables, fruits, compostable materials, garden waste, plant matter, banana peels, apple cores, leftovers, spoiled food, rotten produce, and natural biodegradable matter''),
      (''paper'', ''Paper and cardboard waste including newspapers, magazines, cardboard boxes, cartons, tissue paper, documents, books, notebooks, envelopes, and paper packaging materials''),
      (''glass'', ''Glass waste including bottles, jars, broken glass, window glass, mirrors, wine bottles, beer bottles, glassware, and glass containers''),
      (''metal'', ''Metal waste including cans, aluminum, steel, tin, iron, copper, metal foil, wire, scrap metal, batteries with metal components, and metallic materials''),
      (''electronic'', ''Electronic waste and e-waste including computers, phones, mobile devices, laptops, televisions, monitors, cables, chargers, batteries, appliances, electronic devices, and gadgets''),
      (''hazardous'', ''Hazardous and toxic waste including chemicals, toxic substances, paint, oil, solvents, batteries, pesticides, medicines, pharmaceuticals, dangerous materials, flammable substances, and corrosive materials''),
      (''textile'', ''Textile and fabric waste including clothing, fabric scraps, cloth, clothes, shirts, pants, dresses, shoes, leather items, and rags''),
      (''construction'', ''Construction and demolition waste including concrete, bricks, wood, debris, rubble, tiles, drywall, lumber, and building materials''),
      (''mixed'', ''Mixed and general waste including household waste, municipal waste, various types of waste, assorted waste materials, multiple waste types, and diverse waste materials'')]"

text \<open>
  The reference embedding of each category is the encoding of its description; an encoder
  that raises makes \<open>initialize\<close> raise. The stop words come from the language toolkit.
\<close>

fun encode_categories :: "encoder \<Rightarrow> (string \<times> string) list \<Rightarrow> (string \<times> real list) list option" where
  "encode_categories encode [] = Some []"
| "encode_categories encode ((category, description) # rest) =
     (case encode description of
        None \<Rightarrow> None
      | Some e \<Rightarrow>
          (case encode_categories encode rest of
             None \<Rightarrow> None
           | Some es \<Rightarrow> Some ((category, e) # es)))"

definition initialize :: "encoder \<Rightarrow> string set \<Rightarrow> error + ai_service" where
  "initialize encode english_stopwords =
     (case encode_categories encode WASTE_CATEGORY_DESCRIPTIONS of
        None \<Rightarrow> Inl EncodingFailure
      | Some es \<Rightarrow>
          Inr \<lparr>model = Some encode, stopwords = english_stopwords, category_embeddings = es\<rparr>)"


subsection \<open>\<open>AIService.extract_keywords\<close>\<close>





subsection \<open>\<open>AIService.find_similar_incidents\<close>\<close>

text \<open>
  \<open>db\<close> is the table of incidents in the order the query returns its rows; of an incident
  only the identifier and the nullable column \<open>embedding\<close> are read. A missing \<open>threshold\<close>
  is replaced by the configured one. An exception anywhere in the \<open>try\<close> block gives the
  empty list.
\<close>

record incident =
  incident_id :: nat
  incident_embedding :: "real list option"

definition SIMILARITY_THRESHOLD :: real where
  "SIMILARITY_THRESHOLD = 0.75"

fun similarity_loop ::
  "real list \<Rightarrow> real \<Rightarrow> incident list \<Rightarrow> (incident \<times> real) list \<Rightarrow> (incident \<times> real) list option" where
  "similarity_loop current_embedding threshold [] similarities = Some similarities"
| "similarity_loop current_embedding threshold (inc # rest) similarities =
     (case incident_embedding inc of
        None \<Rightarrow> similarity_loop current_embedding threshold rest similarities
      | Some v \<Rightarrow>
          if 0 < length v
          then
            (case cosine_similarity current_embedding v of
               None \<Rightarrow> None
             | Some similarity \<Rightarrow>
                 if threshold \<le> similarity
                 then similarity_loop current_embedding threshold rest (similarities @ [(inc, similarity)])
                 else similarity_loop current_embedding threshold rest similarities)
          else similarity_loop current_embedding threshold rest similarities)"

definition find_similar_incidents ::
  "incident list \<Rightarrow> nat \<Rightarrow> real list \<Rightarrow> real option \<Rightarrow> int \<Rightarrow> incident list" where
  "find_similar_incidents db current_incident_id embedding threshold limit =
     (let threshold = (case threshold of None \<Rightarrow> SIMILARITY_THRESHOLD | Some t \<Rightarrow> t);
          all_incidents =
            filter (\<lambda>i. incident_id i \<noteq> current_incident_id \<and> incident_embedding i \<noteq> None) db
      in if all_incidents = [] then []
         else
           (case similarity_loop embedding threshold all_incidents [] of
              None \<Rightarrow> []
            | Some similarities \<Rightarrow>
                map fst (py_slice_to limit (py_sorted_desc snd similarities))))"


section \<open>Example inputs\<close>

definition week_counts :: "(nat \<times> int) list" where
  "week_counts = [(1, 10), (2, 10), (3, 10), (4, 10), (5, 10), (6, 10), (7, 50)]"

definition eight_day_counts :: "(nat \<times> int) list" where
  "eight_day_counts = [(1, 10), (2, 10), (3, 10), (4, 10), (5, 10), (6, 10), (7, 10), (8, 50)]"

definition location_rows :: "(string \<times> int) list" where
  "location_rows = [(''A'', 5), (''B'', 5), (''C'', 5), (''D'', 40)]"

definition no_trends :: trend_lists where
  "no_trends = \<lparr>rising_trends = [], falling_trends = [], stable_trends = [], new_types = []\<rparr>"

text \<open>
  An encoder with two-dimensional unit vectors: it tells the texts apart by their first
  letters, and raises on a text that starts with \<open>crash\<close>. The service after
  \<open>initialize\<close> with this encoder holds the encodings of the ten descriptions.
\<close>

definition example_encoder :: encoder where
  "example_encoder text =
     (if take 5 text = ''crash'' then None
      else Some (if take 5 text = ''Glass'' then [3 / 5, 4 / 5]
                 else if take 6 text = ''broken'' then [0, 1]
                 else if take 3 text = ''old'' then [- 3 / 5, 4 / 5]
                 else if take 3 text = ''zzz'' then [- 3 / 5, - 4 / 5]
                 else [1, 0]))"

definition example_stopwords :: "string set" where
  "example_stopwords = {''the'', ''and'', ''was'', ''for'', ''with'', ''near''}"

definition example_service :: ai_service where
  "example_service =
     \<lparr>model = Some example_encoder,
      stopwords = example_stopwords,
      category_embeddings =
        [(''plastic'', [1, 0]), (''organic'', [1, 0]), (''paper'', [1, 0]),
         (''glass'', [3 / 5, 4 / 5]), (''metal'', [1, 0]), (''electronic'', [1, 0]),
         (''hazardous'', [1, 0]), (''textile'', [1, 0]), (''construction'', [1, 0]),
         (''mixed'', [1, 0])]\<rparr>"

text \<open>A table of incidents: one without an embedding, one with an empty embedding.\<close>

definition inc :: "nat \<Rightarrow> real list option \<Rightarrow> incident" where
  "inc n e = \<lparr>incident_id = n, incident_embedding = e\<rparr>"

definition example_db :: "incident list" where
  "example_db =
     [inc 1 (Some [1, 0]), inc 2 (Some [3 / 5, 4 / 5]), inc 3 (Some [0, 1]),
      inc 4 None, inc 5 (Some []), inc 6 (Some [4 / 5, 3 / 5])]"

definition malformed_db :: "incident list" where
  "malformed_db = [inc 2 (Some [1, 0]), inc 7 (Some [1])]"




section \<open>The notions of the specification\<close>

text \<open>
  The definitions of this section follow the words of the specification. The theorems
  below compare them with the functions of the code.
\<close>

text \<open>Cosine similarity: the dot product over the product of the norms.\<close>

definition cosine :: "real list \<Rightarrow> real list \<Rightarrow> real" where
  "cosine x y = dot x y / (l2_norm x * l2_norm y)"

text \<open>The similarity of the text embedding to each category's reference embedding.\<close>

definition semantic_table :: "real list \<Rightarrow> (string \<times> real list) list \<Rightarrow> (string \<times> real) list" where
  "semantic_table e embeddings = map (\<lambda>(c, r). (c, cosine e r)) embeddings"

text \<open>
  The keyword score of a category: the sum, over its keywords that occur as substrings of
  the lower-cased text, of the keyword's word count, divided by the length of the keyword
  list. Categories without a match are left out of the table.
\<close>

definition keyword_matches :: "string \<Rightarrow> string list \<Rightarrow> string list" where
  "keyword_matches text keywords = filter (\<lambda>k. str_contains k (str_lower text)) keywords"

definition keyword_score :: "string \<Rightarrow> string list \<Rightarrow> real" where
  "keyword_score text keywords =
     real (sum_list (map (\<lambda>k. length (str_split k)) (keyword_matches text keywords)))
       / real (length keywords)"

definition keyword_table :: "string \<Rightarrow> (string \<times> real) list" where
  "keyword_table text =
     map (\<lambda>(c, ks). (c, keyword_score text ks))
       (filter (\<lambda>(c, ks). keyword_matches text ks \<noteq> []) WASTE_CATEGORIES)"

text \<open>The best entry of a score table: the first one that no entry exceeds.\<close>

definition best_entry :: "('a \<times> real) list \<Rightarrow> ('a \<times> real) option" where
  "best_entry xs = find (\<lambda>p. list_all (\<lambda>q. snd q \<le> snd p) xs) xs"

text \<open>
  Similarity search: a candidate qualifies when its identifier is not the excluded one, it
  has an embedding that is neither null nor empty, and the cosine similarity of the
  embedding to the query is at least the threshold. A corpus is well formed for a query
  when every candidate embedding that is read has the query's dimension.
\<close>

definition similarity_of :: "real list \<Rightarrow> incident \<Rightarrow> real" where
  "similarity_of q i = (case incident_embedding i of None \<Rightarrow> 0 | Some v \<Rightarrow> cosine q v)"

definition qualifies :: "nat \<Rightarrow> real list \<Rightarrow> real \<Rightarrow> incident \<Rightarrow> bool" where
  "qualifies exclude_id q t i \<longleftrightarrow>
     incident_id i \<noteq> exclude_id \<and>
     (case incident_embedding i of None \<Rightarrow> False | Some v \<Rightarrow> v \<noteq> [] \<and> t \<le> cosine q v)"

definition well_formed :: "nat \<Rightarrow> real list \<Rightarrow> incident list \<Rightarrow> bool" where
  "well_formed exclude_id q corpus \<longleftrightarrow>
     list_all (\<lambda>i. incident_id i = exclude_id \<or>
                  (case incident_embedding i of None \<Rightarrow> True
                   | Some v \<Rightarrow> v = [] \<or> length v = length q)) corpus"


text \<open>
  The result of the similarity search in the words of the specification: the qualifying
  candidates, sorted by descending similarity, truncated to the limit.
\<close>

definition find_similar_spec ::
  "incident list \<Rightarrow> nat \<Rightarrow> real list \<Rightarrow> real \<Rightarrow> int \<Rightarrow> incident list" where
  "find_similar_spec corpus exclude_id q t limit =
     take (nat limit) (py_sorted_desc (similarity_of q) (filter (qualifies exclude_id q t) corpus))"

text \<open>
  Two auxiliary predicates on a candidate of the loop: its similarity is computed and
  reaches the threshold; its embedding makes the similarity raise.
\<close>

definition hit :: "real list \<Rightarrow> real \<Rightarrow> incident \<Rightarrow> bool" where
  "hit q t i = (case incident_embedding i of None \<Rightarrow> False | Some v \<Rightarrow> v \<noteq> [] \<and> t \<le> cosine q v)"

definition raises :: "real list \<Rightarrow> incident \<Rightarrow> bool" where
  "raises q i = (case incident_embedding i of None \<Rightarrow> False
                 | Some v \<Rightarrow> v \<noteq> [] \<and> length q \<noteq> length v)"


section \<open>Properties of the analytics service\<close>

subsection \<open>Rounding\<close>

lemma round_half_even_cases: "round_half_even x = \<lfloor>x\<rfloor> \<or> round_half_even x = \<lfloor>x\<rfloor> + 1"
  by (simp add: round_half_even_def Let_def)

lemma round_half_even_ge:
  assumes "of_int k \<le> x"
  shows "k \<le> round_half_even x"
proof -
  have "k \<le> \<lfloor>x\<rfloor>" using assms by (simp add: le_floor_iff)
  then show ?thesis using round_half_even_cases [of x] by auto
qed

lemma round_half_even_le:
  assumes "x \<le> of_int k"
  shows "round_half_even x \<le> k"
proof (cases "round_half_even x = \<lfloor>x\<rfloor>")
  case True
  then show ?thesis using assms by (simp add: floor_le_iff)
next
  case False
  then have up: "round_half_even x = \<lfloor>x\<rfloor> + 1"
    using round_half_even_cases [of x] by simp
  have "x \<noteq> of_int \<lfloor>x\<rfloor>"
  proof
    assume "x = of_int \<lfloor>x\<rfloor>"
    then have "x - of_int \<lfloor>x\<rfloor> = 0" by simp
    then have "round_half_even x = \<lfloor>x\<rfloor>" by (simp add: round_half_even_def Let_def)
    with False show False by simp
  qed
  then have "of_int \<lfloor>x\<rfloor> < x" using of_int_floor_le [of x] by linarith
  then have "of_int \<lfloor>x\<rfloor> < (of_int k :: real)" using assms by linarith
  then have "\<lfloor>x\<rfloor> < k" by simp
  with up show ?thesis by simp
qed

lemma py_round_ge:
  assumes "of_int k / 10 ^ n \<le> x"
  shows "of_int k / 10 ^ n \<le> py_round x n"
proof -
  have "of_int k \<le> x * 10 ^ n" using assms by (simp add: pos_divide_le_eq)
  then have "k \<le> round_half_even (x * 10 ^ n)" by (rule round_half_even_ge)
  then have "(of_int k :: real) \<le> of_int (round_half_even (x * 10 ^ n))" by simp
  then show ?thesis by (simp add: py_round_def divide_right_mono)
qed

lemma py_round_le:
  assumes "x \<le> of_int k / 10 ^ n"
  shows "py_round x n \<le> of_int k / 10 ^ n"
proof -
  have "x * 10 ^ n \<le> of_int k" using assms by (simp add: pos_le_divide_eq)
  then have "round_half_even (x * 10 ^ n) \<le> k" by (rule round_half_even_le)
  then have "(of_int (round_half_even (x * 10 ^ n)) :: real) \<le> of_int k" by simp
  then show ?thesis by (simp add: py_round_def divide_right_mono)
qed

lemma py_round_nonneg: "0 \<le> x \<Longrightarrow> 0 \<le> py_round x n"
  using py_round_ge [of 0 n x] by simp

lemma py_round_le_one: "x \<le> 1 \<Longrightarrow> py_round x n \<le> 1"
  using py_round_le [of x "10 ^ n" n] by simp

lemma py_round_ge_minus_one: "- 1 \<le> x \<Longrightarrow> - 1 \<le> py_round x n"
  using py_round_ge [of "- (10 ^ n)" n x] by simp


subsection \<open>Location anomalies\<close>

lemma detect_anomalies_example:
  "detect_anomalies location_rows 2 =
     [\<lparr>anomaly_location = ''D'', anomaly_count = 40, anomaly_mean = 13.75,
       anomaly_threshold = 27.5, anomaly_severity = ''medium''\<rparr>]"
  by (simp add: detect_anomalies_def location_rows_def Let_def py_round_def round_half_even_def)

text \<open>
  Claim C8. Without locations the result is empty. Otherwise, with the arithmetic mean of
  the counts and the threshold \<open>mean * threshold_multiplier\<close>, the anomalies are exactly
  the rows whose count exceeds the threshold, in the order of the rows; each reports the
  rounded mean and threshold, and its severity is high exactly when its count exceeds 1.5
  times the threshold, medium otherwise. For the counts A:5, B:5, C:5, D:40 and the
  multiplier 2 the mean is 13.75, the threshold 27.5, and D is the only anomaly, of
  severity medium.
\<close>

theorem detect_anomalies_rule:
  "detect_anomalies [] k = [] \<and>
   (rows \<noteq> [] \<longrightarrow>
      (let mean = real_of_int (sum_list (map snd rows)) / real (length rows);
           threshold = mean * k
       in map (\<lambda>a. (anomaly_location a, anomaly_count a)) (detect_anomalies rows k)
            = filter (\<lambda>row. threshold < real_of_int (snd row)) rows
          \<and> (\<forall>a \<in> set (detect_anomalies rows k).
                anomaly_mean a = py_round mean 2 \<and>
                anomaly_threshold a = py_round threshold 2 \<and>
                anomaly_severity a =
                  (if 1.5 * threshold < real_of_int (anomaly_count a) then ''high'' else ''medium'')))) \<and>
   detect_anomalies location_rows 2 =
     [\<lparr>anomaly_location = ''D'', anomaly_count = 40, anomaly_mean = 13.75,
       anomaly_threshold = 27.5, anomaly_severity = ''medium''\<rparr>]"
proof (intro conjI impI)
  show "detect_anomalies [] k = []"
    by (simp add: detect_anomalies_def)
next
  assume ne: "rows \<noteq> []"
  then show "(let mean = real_of_int (sum_list (map snd rows)) / real (length rows);
           threshold = mean * k
       in map (\<lambda>a. (anomaly_location a, anomaly_count a)) (detect_anomalies rows k)
            = filter (\<lambda>row. threshold < real_of_int (snd row)) rows
          \<and> (\<forall>a \<in> set (detect_anomalies rows k).
                anomaly_mean a = py_round mean 2 \<and>
                anomaly_threshold a = py_round threshold 2 \<and>
                anomaly_severity a =
                  (if 1.5 * threshold < real_of_int (anomaly_count a) then ''high'' else ''medium'')))"
    by (auto simp: detect_anomalies_def Let_def o_def mult.commute)
next
  show "detect_anomalies location_rows 2 =
     [\<lparr>anomaly_location = ''D'', anomaly_count = 40, anomaly_mean = 13.75,
       anomaly_threshold = 27.5, anomaly_severity = ''medium''\<rparr>]"
    by (rule detect_anomalies_example)
qed

theorem detect_anomalies_rule_witness:
  "location_rows \<noteq> [] \<and>
   map (\<lambda>a. (anomaly_location a, anomaly_count a)) (detect_anomalies location_rows 2) = [(''D'', 40)] \<and>
   map anomaly_severity (detect_anomalies location_rows 2) = [''medium'']"
  using detect_anomalies_rule [of 2 location_rows]
  by (simp add: Let_def location_rows_def)


subsection \<open>Daily spikes\<close>

lemma gt_add_sqrt_iff:
  assumes "0 \<le> v" "0 \<le> k"
  shows "(m + k * sqrt v < c) \<longleftrightarrow> (m < c \<and> k\<^sup>2 * v < (c - m)\<^sup>2)"
proof -
  have e: "k * sqrt v = sqrt (k\<^sup>2 * v)"
    using assms by (simp add: real_sqrt_mult)
  show ?thesis
  proof (cases "m < c")
    case True
    then have "c - m = sqrt ((c - m)\<^sup>2)" by simp
    then have "(sqrt (k\<^sup>2 * v) < c - m) \<longleftrightarrow> (k\<^sup>2 * v < (c - m)\<^sup>2)"
      by (metis real_sqrt_less_iff)
    with True e show ?thesis by auto
  next
    case False
    have "0 \<le> k * sqrt v" using assms by simp
    with False show ?thesis by auto
  qed
qed

lemma foldl_spike_step:
  "foldl (spike_step m s t) acc rows =
     acc @ map (\<lambda>row. \<lparr>spike_date = fst row, spike_count = snd row,
                        spike_mean = py_round m 1, spike_threshold_value = py_round t 1,
                        spike_severity =
                          (if m + 4 * s < real_of_int (snd row) then ''high'' else ''medium'')\<rparr>)
               (filter (\<lambda>row. t < real_of_int (snd row)) rows)"
  by (induction rows arbitrary: acc) (auto simp: spike_step_def)

lemma week_counts_no_spike: "detect_daily_spikes week_counts spike_threshold_default = []"
proof -
  have "\<not> (110 / 7 + 5 / 2 * sqrt (9600 / 49) < (50::real))"
    using gt_add_sqrt_iff [of "9600 / 49" "5 / 2" "110 / 7" 50] by (simp add: power2_eq_square)
  moreover have "\<not> (110 / 7 + 5 / 2 * sqrt (9600 / 49) < (10::real))"
    using gt_add_sqrt_iff [of "9600 / 49" "5 / 2" "110 / 7" 10] by (simp add: power2_eq_square)
  ultimately show ?thesis
    by (simp add: detect_daily_spikes_def week_counts_def spike_threshold_default_def Let_def
        spike_step_def power2_eq_square)
qed

text \<open>
  Claim C1, as stated, at its own example: for the seven daily counts 10, 10, 10, 10, 10,
  10, 50 the mean is 110/7 and the population standard deviation is the root of 9600/49,
  so the threshold is about 50.7 and the day with count 50 is not above it: no day is
  flagged.
\<close>

theorem week_spike_counterexample: "detect_daily_spikes week_counts spike_threshold_default = []"
  by (rule week_counts_no_spike)

text \<open>
  Claim C1, amended. With at least three days, the flagged days are exactly the days whose
  count exceeds the population mean of the daily counts by more than 2.5 population
  standard deviations, in date order; for the seven daily counts 10, 10, 10, 10, 10, 10, 50
  no day is flagged.
\<close>

theorem daily_spike_rule:
  "(3 \<le> length daily \<longrightarrow>
     (let counts = map snd daily;
          n = real (length counts);
          mean = real_of_int (sum_list counts) / n;
          stddev = sqrt (sum_list (map (\<lambda>x. (real_of_int x - mean)\<^sup>2) counts) / n)
      in map (\<lambda>s. (spike_date s, spike_count s)) (detect_daily_spikes daily spike_threshold_default)
           = filter (\<lambda>row. mean + 2.5 * stddev < real_of_int (snd row)) daily)) \<and>
   detect_daily_spikes week_counts spike_threshold_default = []"
proof (rule conjI)
  show "3 \<le> length daily \<longrightarrow>
     (let counts = map snd daily;
          n = real (length counts);
          mean = real_of_int (sum_list counts) / n;
          stddev = sqrt (sum_list (map (\<lambda>x. (real_of_int x - mean)\<^sup>2) counts) / n)
      in map (\<lambda>s. (spike_date s, spike_count s)) (detect_daily_spikes daily spike_threshold_default)
           = filter (\<lambda>row. mean + 2.5 * stddev < real_of_int (snd row)) daily)"
    by (simp add: detect_daily_spikes_def spike_threshold_default_def Let_def foldl_spike_step o_def)
next
  show "detect_daily_spikes week_counts spike_threshold_default = []"
    by (rule week_counts_no_spike)
qed

theorem daily_spike_rule_witness:
  "3 \<le> length eight_day_counts \<and>
   map (\<lambda>s. (spike_date s, spike_count s))
     (detect_daily_spikes eight_day_counts spike_threshold_default) = [(8, 50)]"
proof -
  have a: "15 + 5 / 2 * sqrt 175 < (50::real)"
    using gt_add_sqrt_iff [of 175 "5 / 2" 15 50] by (simp add: power2_eq_square)
  have b: "\<not> (15 + 5 / 2 * sqrt 175 < (10::real))"
    using gt_add_sqrt_iff [of 175 "5 / 2" 15 10] by (simp add: power2_eq_square)
  show ?thesis
    using a b daily_spike_rule [of eight_day_counts]
    by (simp add: Let_def power2_eq_square eight_day_counts_def)
qed


subsection \<open>Trend classification\<close>

lemma trend_step_stable_example:
  "trend_step [''plastic'' \<mapsto> 100] [''plastic'' \<mapsto> 100] no_trends ''plastic'' =
     no_trends\<lparr>stable_trends :=
       [\<lparr>waste_type = ''plastic'', current_count = 100, previous_count = 100,
         change_percentage = 0, change_absolute = 0, trend = ''stable'', severity = None\<rparr>]\<rparr>"
  by (simp add: trend_step_def dict_get_def percentage_change_def no_trends_def py_round_def
      round_half_even_def Let_def)

lemma trend_step_rising_medium_example:
  "trend_step [''plastic'' \<mapsto> 125] [''plastic'' \<mapsto> 100] no_trends ''plastic'' =
     no_trends\<lparr>rising_trends :=
       [\<lparr>waste_type = ''plastic'', current_count = 125, previous_count = 100,
         change_percentage = 25, change_absolute = 25, trend = ''rising'',
         severity = Some ''medium''\<rparr>]\<rparr>"
  by (simp add: trend_step_def dict_get_def percentage_change_def no_trends_def py_round_def
      round_half_even_def Let_def)

lemma trend_step_rising_high_example:
  "trend_step [''plastic'' \<mapsto> 170] [''plastic'' \<mapsto> 100] no_trends ''plastic'' =
     no_trends\<lparr>rising_trends :=
       [\<lparr>waste_type = ''plastic'', current_count = 170, previous_count = 100,
         change_percentage = 70, change_absolute = 70, trend = ''rising'',
         severity = Some ''high''\<rparr>]\<rparr>"
  by (simp add: trend_step_def dict_get_def percentage_change_def no_trends_def py_round_def
      round_half_even_def Let_def)

lemma trend_step_cases:
  assumes "dict_get cur wt 0 = current" "dict_get prev wt 0 = previous"
  shows "(0 < previous \<longrightarrow>
      (let change = (real_of_int current - real_of_int previous) / real_of_int previous * 100;
           item = \<lparr>waste_type = wt, current_count = current, previous_count = previous,
                   change_percentage = py_round change 1, change_absolute = current - previous,
                   trend = [], severity = None\<rparr>;
           sev = (if 50 < \<bar>change\<bar> then ''high'' else ''medium'')
       in (20 < change \<longrightarrow> trend_step cur prev acc wt =
             acc\<lparr>rising_trends := rising_trends acc @
                   [item\<lparr>trend := ''rising'', severity := Some sev\<rparr>]\<rparr>) \<and>
          (change < - 20 \<longrightarrow> trend_step cur prev acc wt =
             acc\<lparr>falling_trends := falling_trends acc @
                   [item\<lparr>trend := ''falling'', severity := Some sev\<rparr>]\<rparr>) \<and>
          (- 20 \<le> change \<and> change \<le> 20 \<longrightarrow> trend_step cur prev acc wt =
             acc\<lparr>stable_trends := stable_trends acc @ [item\<lparr>trend := ''stable''\<rparr>]\<rparr>))) \<and>
     (previous = 0 \<and> 0 < current \<longrightarrow> trend_step cur prev acc wt =
        acc\<lparr>new_types := new_types acc @
          [\<lparr>new_waste_type = wt, new_count = current, new_trend = ''new''\<rparr>]\<rparr>)"
  using assms by (auto simp: trend_step_def percentage_change_def Let_def)

text \<open>
  Claim C6, as stated, at a stable category: with previous = 100 and current = 100 the
  change is 0 percent, the category is stable, and its record carries no severity at all,
  where the claim gives every category with a previous count the severity medium unless
  the change exceeds 50 percent in size.
\<close>

theorem stable_severity_counterexample:
  "map severity (stable_trends
     (trend_step [''plastic'' \<mapsto> 100] [''plastic'' \<mapsto> 100] no_trends ''plastic'')) = [None]"
  by (simp add: trend_step_stable_example)

text \<open>
  Claim C6, amended. For a category with previous count above 0 the change percentage is
  (current - previous) / previous * 100 (reported rounded to one decimal); the category is
  rising if the change is above 20, falling if it is below -20 and stable otherwise; a
  rising or falling record has severity high exactly when the size of the change exceeds
  50 and medium otherwise, and a stable record carries no severity. A category with
  previous = 0 and current above 0 is recorded as new, with its count and no percentage.
  With previous = 100, current = 125 gives 25.0, rising, medium, and current = 170 gives
  70.0, rising, high.
\<close>

theorem trend_step_rule:
  "(dict_get cur wt 0 = current \<and> dict_get prev wt 0 = previous \<longrightarrow>
     (0 < previous \<longrightarrow>
        (let change = (real_of_int current - real_of_int previous) / real_of_int previous * 100;
             item = \<lparr>waste_type = wt, current_count = current, previous_count = previous,
                     change_percentage = py_round change 1, change_absolute = current - previous,
                     trend = [], severity = None\<rparr>;
             sev = (if 50 < \<bar>change\<bar> then ''high'' else ''medium'')
         in percentage_change current previous = change \<and>
            (20 < change \<longrightarrow> trend_step cur prev acc wt =
               acc\<lparr>rising_trends := rising_trends acc @
                     [item\<lparr>trend := ''rising'', severity := Some sev\<rparr>]\<rparr>) \<and>
            (change < - 20 \<longrightarrow> trend_step cur prev acc wt =
               acc\<lparr>falling_trends := falling_trends acc @
                     [item\<lparr>trend := ''falling'', severity := Some sev\<rparr>]\<rparr>) \<and>
            (- 20 \<le> change \<and> change \<le> 20 \<longrightarrow> trend_step cur prev acc wt =
               acc\<lparr>stable_trends := stable_trends acc @ [item\<lparr>trend := ''stable''\<rparr>]\<rparr>))) \<and>
     (previous = 0 \<and> 0 < current \<longrightarrow> trend_step cur prev acc wt =
        acc\<lparr>new_types := new_types acc @
          [\<lparr>new_waste_type = wt, new_count = current, new_trend = ''new''\<rparr>]\<rparr>)) \<and>
   trend_step [''plastic'' \<mapsto> 125] [''plastic'' \<mapsto> 100] no_trends ''plastic'' =
     no_trends\<lparr>rising_trends :=
       [\<lparr>waste_type = ''plastic'', current_count = 125, previous_count = 100,
         change_percentage = 25, change_absolute = 25, trend = ''rising'',
         severity = Some ''medium''\<rparr>]\<rparr> \<and>
   trend_step [''plastic'' \<mapsto> 170] [''plastic'' \<mapsto> 100] no_trends ''plastic'' =
     no_trends\<lparr>rising_trends :=
       [\<lparr>waste_type = ''plastic'', current_count = 170, previous_count = 100,
         change_percentage = 70, change_absolute = 70, trend = ''rising'',
         severity = Some ''high''\<rparr>]\<rparr>"
proof (intro conjI impI)
  assume a: "dict_get cur wt 0 = current \<and> dict_get prev wt 0 = previous" and p: "0 < previous"
  show "(let change = (real_of_int current - real_of_int previous) / real_of_int previous * 100;
             item = \<lparr>waste_type = wt, current_count = current, previous_count = previous,
                     change_percentage = py_round change 1, change_absolute = current - previous,
                     trend = [], severity = None\<rparr>;
             sev = (if 50 < \<bar>change\<bar> then ''high'' else ''medium'')
         in percentage_change current previous = change \<and>
            (20 < change \<longrightarrow> trend_step cur prev acc wt =
               acc\<lparr>rising_trends := rising_trends acc @
                     [item\<lparr>trend := ''rising'', severity := Some sev\<rparr>]\<rparr>) \<and>
            (change < - 20 \<longrightarrow> trend_step cur prev acc wt =
               acc\<lparr>falling_trends := falling_trends acc @
                     [item\<lparr>trend := ''falling'', severity := Some sev\<rparr>]\<rparr>) \<and>
            (- 20 \<le> change \<and> change \<le> 20 \<longrightarrow> trend_step cur prev acc wt =
               acc\<lparr>stable_trends := stable_trends acc @ [item\<lparr>trend := ''stable''\<rparr>]\<rparr>))"
    using trend_step_cases [of cur wt current prev previous acc] a p
    by (simp add: Let_def percentage_change_def)
next
  assume a: "dict_get cur wt 0 = current \<and> dict_get prev wt 0 = previous"
    and p: "previous = 0 \<and> 0 < current"
  show "trend_step cur prev acc wt =
        acc\<lparr>new_types := new_types acc @
          [\<lparr>new_waste_type = wt, new_count = current, new_trend = ''new''\<rparr>]\<rparr>"
    using trend_step_cases [of cur wt current prev previous acc] a p by simp
next
  show "trend_step [''plastic'' \<mapsto> 125] [''plastic'' \<mapsto> 100] no_trends ''plastic'' =
     no_trends\<lparr>rising_trends :=
       [\<lparr>waste_type = ''plastic'', current_count = 125, previous_count = 100,
         change_percentage = 25, change_absolute = 25, trend = ''rising'',
         severity = Some ''medium''\<rparr>]\<rparr>"
    by (rule trend_step_rising_medium_example)
next
  show "trend_step [''plastic'' \<mapsto> 170] [''plastic'' \<mapsto> 100] no_trends ''plastic'' =
     no_trends\<lparr>rising_trends :=
       [\<lparr>waste_type = ''plastic'', current_count = 170, previous_count = 100,
         change_percentage = 70, change_absolute = 70, trend = ''rising'',
         severity = Some ''high''\<rparr>]\<rparr>"
    by (rule trend_step_rising_high_example)
qed

theorem trend_step_rule_witness:
  "dict_get [''metal'' \<mapsto> 30] ''metal'' 0 = (30::int) \<and>
   dict_get [''metal'' \<mapsto> 100] ''metal'' 0 = (100::int) \<and>
   map (\<lambda>t. (trend t, severity t, change_percentage t))
     (falling_trends (trend_step [''metal'' \<mapsto> 30] [''metal'' \<mapsto> 100] no_trends ''metal''))
     = [(''falling'', Some ''high'', - 70)] \<and>
   map new_count (new_types (trend_step [''metal'' \<mapsto> 4] Map.empty no_trends ''metal'')) = [4]"
  using trend_step_rule [of "[''metal'' \<mapsto> 30]" "''metal''" 30 "[''metal'' \<mapsto> 100]" 100 no_trends]
    trend_step_rule [of "[''metal'' \<mapsto> 4]" "''metal''" 4 Map.empty 0 no_trends]
  by (simp add: dict_get_def Let_def py_round_def round_half_even_def no_trends_def)


section \<open>Properties of the AI service\<close>

subsection \<open>The best entry of a table\<close>

lemma find_append:
  "find P (xs @ ys) = (case find P xs of None \<Rightarrow> find P ys | Some x \<Rightarrow> Some x)"
  by (induction xs) auto

lemma find_skip: "\<forall>p \<in> set xs. \<not> P p \<Longrightarrow> find P (xs @ ys) = find P ys"
  by (induction xs) auto

lemma first_max_foldl:
  fixes k :: "'a \<Rightarrow> real"
  assumes "\<forall>p \<in> set pre. k p < k x" "\<forall>p \<in> set mid. k p \<le> k x"
  shows "find (\<lambda>p. list_all (\<lambda>q. k q \<le> k p) (pre @ x # mid @ rest)) (pre @ x # mid @ rest)
           = Some (foldl (\<lambda>best y. if k best < k y then y else best) x rest)"
  using assms
proof (induction rest arbitrary: pre x mid)
  case Nil
  have "\<forall>p \<in> set pre. \<not> list_all (\<lambda>q. k q \<le> k p) (pre @ x # mid @ [])"
    using Nil by (auto simp: list_all_iff)
  moreover have "list_all (\<lambda>q. k q \<le> k x) (pre @ x # mid @ [])"
    using Nil by (auto simp: list_all_iff intro: less_imp_le)
  ultimately show ?case
    by (simp add: find_skip)
next
  case (Cons y ys)
  show ?case
  proof (cases "k x < k y")
    case True
    have "find (\<lambda>p. list_all (\<lambda>q. k q \<le> k p) ((pre @ x # mid) @ y # [] @ ys)) ((pre @ x # mid) @ y # [] @ ys)
           = Some (foldl (\<lambda>best y. if k best < k y then y else best) y ys)"
      using Cons.prems True by (intro Cons.IH) auto
    with True show ?thesis by simp
  next
    case False
    have "find (\<lambda>p. list_all (\<lambda>q. k q \<le> k p) (pre @ x # (mid @ [y]) @ ys)) (pre @ x # (mid @ [y]) @ ys)
           = Some (foldl (\<lambda>best y. if k best < k y then y else best) x ys)"
      using Cons.prems False by (intro Cons.IH) auto
    with False show ?thesis by simp
  qed
qed

lemma py_max_by_best_entry: "py_max_by snd xs = best_entry xs"
proof (cases xs)
  case Nil
  then show ?thesis by (simp add: py_max_by_def best_entry_def)
next
  case (Cons x rest)
  show ?thesis
    using first_max_foldl [of "[]" snd x "[]" rest] Cons
    by (simp add: py_max_by_def best_entry_def)
qed

lemma best_entry_mem: "best_entry xs = Some p \<Longrightarrow> p \<in> set xs"
  unfolding best_entry_def by (auto simp: find_Some_iff)

lemma best_entry_max: "best_entry xs = Some p \<Longrightarrow> q \<in> set xs \<Longrightarrow> snd q \<le> snd p"
  unfolding best_entry_def by (auto simp: find_Some_iff list_all_iff)

lemma best_entry_None: "best_entry xs = None \<longleftrightarrow> xs = []"
proof (cases xs)
  case Nil
  then show ?thesis by (simp add: best_entry_def)
next
  case (Cons x rest)
  then have "py_max_by snd xs \<noteq> None" by (simp add: py_max_by_def)
  with Cons show ?thesis by (simp add: py_max_by_best_entry)
qed


subsection \<open>Keyword scores\<close>

lemma foldl_keyword_step:
  "foldl (keyword_step dl) sm ks =
     (fst sm + sum_list (map (\<lambda>k. length (str_split k)) (filter (\<lambda>k. str_contains k dl) ks)),
      snd sm + length (filter (\<lambda>k. str_contains k dl) ks))"
  by (induction ks arbitrary: sm) (auto simp: keyword_step_def)

lemma foldl_category_step:
  "foldl (category_step (str_lower text)) acc tbl =
     acc @ map (\<lambda>(c, ks). (c, keyword_score text ks))
             (filter (\<lambda>(c, ks). keyword_matches text ks \<noteq> []) tbl)"
  by (induction tbl arbitrary: acc)
     (auto simp: category_step_def foldl_keyword_step keyword_score_def keyword_matches_def)

lemma keyword_scores_table: "keyword_scores (str_lower text) = keyword_table text"
  by (simp add: keyword_scores_def keyword_table_def foldl_category_step)


subsection \<open>Cosine similarity\<close>

lemma dot_Nil [simp]: "dot [] [] = 0"
  by (simp add: dot_def)

lemma dot_Cons [simp]: "dot (a # x) (b # y) = a * b + dot x y"
  by (simp add: dot_def)

lemma dot_self_nonneg: "0 \<le> dot x x"
  by (induction x) auto

lemma dot_commute: "length x = length y \<Longrightarrow> dot x y = dot y x"
  by (induction x y rule: list_induct2) (auto simp: mult.commute)

lemma dot_scale:
  "length x = length y \<Longrightarrow> dot (map (\<lambda>v. v / a) x) (map (\<lambda>v. v / b) y) = dot x y / (a * b)"
  by (induction x y rule: list_induct2) (auto simp: add_divide_distrib)

lemma l2_norm_nonneg: "0 \<le> l2_norm x"
  by (simp add: l2_norm_def dot_self_nonneg)

lemma cauchy_step:
  fixes a b d X Y :: real
  assumes "d\<^sup>2 \<le> X * Y" "0 \<le> X" "0 \<le> Y"
  shows "(a * b + d)\<^sup>2 \<le> (a * a + X) * (b * b + Y)"
proof -
  have sq: "(2 * a * b * d)\<^sup>2 \<le> (a\<^sup>2 * Y + b\<^sup>2 * X)\<^sup>2"
  proof -
    have "(2 * a * b * d)\<^sup>2 = 4 * (a\<^sup>2 * b\<^sup>2) * d\<^sup>2"
      by (simp add: power2_eq_square)
    also have "\<dots> \<le> 4 * (a\<^sup>2 * b\<^sup>2) * (X * Y)"
      using assms(1) by (intro mult_left_mono) auto
    also have "\<dots> \<le> 4 * (a\<^sup>2 * b\<^sup>2) * (X * Y) + (a\<^sup>2 * Y - b\<^sup>2 * X)\<^sup>2"
      by simp
    also have "\<dots> = (a\<^sup>2 * Y + b\<^sup>2 * X)\<^sup>2"
      by (simp add: power2_eq_square algebra_simps)
    finally show ?thesis .
  qed
  have nn: "0 \<le> a\<^sup>2 * Y + b\<^sup>2 * X"
    using assms by simp
  have "2 * a * b * d \<le> a\<^sup>2 * Y + b\<^sup>2 * X"
    using sq nn by (rule power2_le_imp_le)
  moreover have "(a * b + d)\<^sup>2 = a\<^sup>2 * b\<^sup>2 + 2 * a * b * d + d\<^sup>2"
    by (simp add: power2_eq_square algebra_simps)
  moreover have "(a * a + X) * (b * b + Y) = a\<^sup>2 * b\<^sup>2 + (a\<^sup>2 * Y + b\<^sup>2 * X) + X * Y"
    by (simp add: power2_eq_square algebra_simps)
  ultimately show ?thesis using assms(1) by linarith
qed

lemma cauchy_schwarz: "length x = length y \<Longrightarrow> (dot x y)\<^sup>2 \<le> dot x x * dot y y"
proof (induction x y rule: list_induct2)
  case Nil
  then show ?case by simp
next
  case (Cons a x b y)
  then show ?case
    using cauchy_step [of "dot x y" "dot x x" "dot y y" a b] dot_self_nonneg [of x] dot_self_nonneg [of y]
    by simp
qed

lemma abs_dot_le_norms:
  assumes "length x = length y"
  shows "\<bar>dot x y\<bar> \<le> l2_norm x * l2_norm y"
proof -
  have "\<bar>dot x y\<bar> = sqrt ((dot x y)\<^sup>2)" by simp
  also have "\<dots> \<le> sqrt (dot x x * dot y y)"
    using cauchy_schwarz [OF assms] by (simp only: real_sqrt_le_iff)
  also have "\<dots> = l2_norm x * l2_norm y"
    by (simp add: l2_norm_def real_sqrt_mult)
  finally show ?thesis .
qed

lemma cosine_bounds:
  assumes "length x = length y"
  shows "- 1 \<le> cosine x y \<and> cosine x y \<le> 1"
proof (cases "l2_norm x * l2_norm y = 0")
  case True
  then have "cosine x y = 0" unfolding cosine_def by (simp only: div_by_0)
  then show ?thesis by simp
next
  case False
  have nn: "0 \<le> l2_norm x * l2_norm y"
    by (simp add: l2_norm_def dot_self_nonneg)
  with False have pos: "0 < l2_norm x * l2_norm y" by linarith
  have "\<bar>cosine x y\<bar> = \<bar>dot x y\<bar> / (l2_norm x * l2_norm y)"
    by (simp add: cosine_def l2_norm_nonneg)
  also have "\<dots> \<le> 1"
    using abs_dot_le_norms [OF assms] pos by (simp add: divide_le_eq)
  finally show ?thesis by (simp add: abs_le_iff)
qed

lemma l2_norm_zero_dot:
  assumes "length x = length y" "l2_norm x = 0"
  shows "dot x y = 0"
proof -
  have "dot x x = 0" using assms(2) by (simp add: l2_norm_def dot_self_nonneg)
  then have "(dot x y)\<^sup>2 \<le> 0" using cauchy_schwarz [OF assms(1)] by simp
  then show ?thesis by simp
qed

lemma cosine_similarity_cosine:
  assumes "length x = length y" "x \<noteq> []"
  shows "cosine_similarity x y = Some (cosine x y)"
proof -
  let ?a = "if l2_norm x = 0 then 1 else l2_norm x"
  let ?b = "if l2_norm y = 0 then 1 else l2_norm y"
  have "dot (normalize_row x) (normalize_row y) = dot x y / (?a * ?b)"
    unfolding normalize_row_def Let_def by (rule dot_scale [OF assms(1)])
  also have "\<dots> = cosine x y"
  proof (cases "l2_norm x = 0 \<or> l2_norm y = 0")
    case True
    then have "dot x y = 0"
      using l2_norm_zero_dot [OF assms(1)] l2_norm_zero_dot [of y x] assms(1) dot_commute [OF assms(1)]
      by auto
    then show ?thesis by (simp add: cosine_def)
  next
    case False
    then show ?thesis by (simp add: cosine_def)
  qed
  finally show ?thesis using assms by (simp add: cosine_similarity_def)
qed

lemma cosine_similarity_Some:
  "cosine_similarity x y = Some s \<Longrightarrow> length x = length y \<and> x \<noteq> [] \<and> s = cosine x y"
  using cosine_similarity_cosine [of x y]
  by (cases "length x = length y \<and> x \<noteq> []") (auto simp: cosine_similarity_def)

lemma cosine_similarity_None:
  "cosine_similarity x y = None \<longleftrightarrow> length x \<noteq> length y \<or> x = []"
  by (auto simp: cosine_similarity_def)


subsection \<open>Classification\<close>

lemma init_example: "initialize example_encoder example_stopwords = Inr example_service"
  by (simp add: initialize_def WASTE_CATEGORY_DESCRIPTIONS_def example_encoder_def example_service_def)

lemma semantic_scores_table:
  assumes "e \<noteq> []" "list_all (\<lambda>(c, r). length r = length e) embs"
  shows "semantic_scores e embs = Some (semantic_table e embs)"
  using assms
  by (induction embs) (auto simp: semantic_table_def cosine_similarity_cosine)

lemma semantic_scores_Some:
  "semantic_scores e embs = Some scores \<Longrightarrow>
     scores = semantic_table e embs \<and> list_all (\<lambda>(c, r). length r = length e) embs"
proof (induction embs arbitrary: scores)
  case Nil
  then show ?case by (simp add: semantic_table_def)
next
  case (Cons a embs)
  obtain c r where a: "a = (c, r)" by (cases a)
  from Cons.prems a obtain s rest where
    s: "cosine_similarity e r = Some s" and rest: "semantic_scores e embs = Some rest"
    and sc: "scores = (c, s) # rest"
    by (auto split: option.splits)
  from cosine_similarity_Some [OF s] Cons.IH [OF rest] a sc
  show ?case by (simp add: semantic_table_def)
qed

lemma classify_semantic_table:
  assumes "encode description = Some e"
    and "semantic_scores e embs = Some scores"
    and "best_entry (semantic_table e embs) = Some (cat, sc)"
  shows "classify_semantic encode embs description =
     (if 0.50 \<le> sc
      then Some (cat, py_round (min (sc + dict_get (map_of (keyword_table description)) cat 0 * 0.2) 1) 2)
      else (case best_entry (keyword_table description) of
              Some (kcat, ks) \<Rightarrow>
                Some (kcat, py_round (if cat = kcat then min (min (ks * 2) 1 + sc * 0.3) 1
                                      else min (ks * 2) 1) 2)
            | None \<Rightarrow> Some (cat, py_round sc 2)))"
proof -
  have sc: "scores = semantic_table e embs"
    using semantic_scores_Some [OF assms(2)] by simp
  show ?thesis
    using assms sc
    by (simp add: classify_semantic_def py_max_by_best_entry keyword_scores_table Let_def
        split: option.splits)
qed

lemma keyword_score_nonneg: "0 \<le> keyword_score text ks"
  by (simp add: keyword_score_def)

lemma keyword_table_nonneg: "(c, s) \<in> set (keyword_table text) \<Longrightarrow> 0 \<le> s"
  by (auto simp: keyword_table_def keyword_score_nonneg)

lemma semantic_table_bounds:
  assumes "list_all (\<lambda>(c, r). length r = length e) embs" "(c, s) \<in> set (semantic_table e embs)"
  shows "- 1 \<le> s \<and> s \<le> 1"
proof -
  from assms(2) obtain r where r: "(c, r) \<in> set embs" and s: "s = cosine e r"
    by (auto simp: semantic_table_def)
  from assms(1) r have "length e = length r" by (auto simp: list_all_iff)
  then show ?thesis using cosine_bounds [of e r] s by simp
qed

lemma classify_semantic_Some:
  assumes "classify_semantic encode embs description = Some res"
  obtains e scores cat sc where "encode description = Some e"
    and "semantic_scores e embs = Some scores"
    and "best_entry (semantic_table e embs) = Some (cat, sc)"
proof -
  from assms obtain e where e: "encode description = Some e"
    by (auto simp: classify_semantic_def split: option.splits)
  from assms e obtain scores where sc: "semantic_scores e embs = Some scores"
    by (auto simp: classify_semantic_def split: option.splits)
  from assms e sc obtain p where p: "py_max_by snd scores = Some p"
    by (auto simp: classify_semantic_def split: option.splits)
  have "scores = semantic_table e embs" using semantic_scores_Some [OF sc] by simp
  with p have "best_entry (semantic_table e embs) = Some (fst p, snd p)"
    by (simp add: py_max_by_best_entry)
  with e sc that show thesis by blast
qed

lemma keywords_only_bounds:
  assumes "classify_by_keywords_only description = (category, confidence)"
  shows "0 \<le> confidence \<and> confidence \<le> 1"
proof (cases "best_entry (keyword_table description)")
  case None
  with assms show ?thesis
    by (simp add: classify_by_keywords_only_def Let_def py_max_by_best_entry keyword_scores_table)
next
  case (Some p)
  then have "0 \<le> snd p" using best_entry_mem [OF Some] keyword_table_nonneg [of "fst p" "snd p"] by simp
  then have "0 \<le> min (snd p * 2) 1" by simp
  moreover have "min (snd p * 2) 1 \<le> 1" by simp
  ultimately have "0 \<le> py_round (min (snd p * 2) 1) 2 \<and> py_round (min (snd p * 2) 1) 2 \<le> 1"
    using py_round_nonneg py_round_le_one by blast
  with assms Some show ?thesis
    by (auto simp: classify_by_keywords_only_def Let_def py_max_by_best_entry keyword_scores_table)
qed

lemma semantic_bounds:
  assumes res: "classify_semantic encode embs description = Some (category, confidence)"
    and e: "encode description = Some e"
  shows "- 1 \<le> confidence \<and> confidence \<le> 1 \<and>
         (0 \<le> confidence \<or> list_all (\<lambda>(c, r). cosine e r < 0) embs)"
proof -
  from res e obtain scores cat sc where
    scores: "semantic_scores e embs = Some scores"
    and best: "best_entry (semantic_table e embs) = Some (cat, sc)"
    by (auto elim!: classify_semantic_Some)
  have dims: "list_all (\<lambda>(c, r). length r = length e) embs"
    using semantic_scores_Some [OF scores] by simp
  have scb: "- 1 \<le> sc \<and> sc \<le> 1"
    using semantic_table_bounds [OF dims best_entry_mem [OF best]] .
  have neg: "list_all (\<lambda>(c, r). cosine e r < 0) embs" if "sc < 0"
  proof -
    have "cosine e r < 0" if "(c, r) \<in> set embs" for c r
    proof -
      have "(c, cosine e r) \<in> set (semantic_table e embs)"
        using that by (force simp: semantic_table_def)
      from best_entry_max [OF best this] \<open>sc < 0\<close> show ?thesis by simp
    qed
    then show ?thesis by (auto simp: list_all_iff)
  qed
  have eq: "Some (category, confidence) =
     (if 0.50 \<le> sc
      then Some (cat, py_round (min (sc + dict_get (map_of (keyword_table description)) cat 0 * 0.2) 1) 2)
      else (case best_entry (keyword_table description) of
              Some (kcat, ks) \<Rightarrow>
                Some (kcat, py_round (if cat = kcat then min (min (ks * 2) 1 + sc * 0.3) 1
                                      else min (ks * 2) 1) 2)
            | None \<Rightarrow> Some (cat, py_round sc 2)))"
    using classify_semantic_table [of encode description e embs scores cat sc] e scores best res by simp
  have kw0: "0 \<le> dict_get (map_of (keyword_table description)) cat 0"
    by (auto simp: dict_get_def split: option.splits dest!: map_of_SomeD keyword_table_nonneg)
  show ?thesis
  proof (cases "0.50 \<le> sc")
    case True
    with eq have c: "confidence = py_round (min (sc + dict_get (map_of (keyword_table description)) cat 0 * 0.2) 1) 2"
      by simp
    have "0 \<le> min (sc + dict_get (map_of (keyword_table description)) cat 0 * 0.2) 1"
      using True kw0 by simp
    then have "0 \<le> confidence" unfolding c by (rule py_round_nonneg)
    moreover have "confidence \<le> 1" unfolding c by (rule py_round_le_one) simp
    ultimately show ?thesis by simp
  next
    case False
    show ?thesis
    proof (cases "best_entry (keyword_table description)")
      case None
      with False eq have c: "confidence = py_round sc 2" by simp
      have "- 1 \<le> confidence" unfolding c using scb by (intro py_round_ge_minus_one) simp
      moreover have "confidence \<le> 1" unfolding c using scb by (intro py_round_le_one) simp
      moreover have "0 \<le> confidence" if "0 \<le> sc" unfolding c using that by (rule py_round_nonneg)
      ultimately show ?thesis using neg by (cases "sc < 0") auto
    next
      case (Some p)
      obtain kcat ks where p: "p = (kcat, ks)" by (cases p)
      have ks0: "0 \<le> ks" using best_entry_mem [OF Some] p keyword_table_nonneg by blast
      let ?v = "if cat = kcat then min (min (ks * 2) 1 + sc * 0.3) 1 else min (ks * 2) 1"
      from False eq Some p have c: "confidence = py_round ?v 2" by simp
      have v1: "?v \<le> 1" by simp
      have vm: "- 1 \<le> ?v" using ks0 scb by (auto simp: min_def)
      have v0: "0 \<le> ?v" if "0 \<le> sc" using ks0 that by (auto simp: min_def)
      have "- 1 \<le> confidence" unfolding c using vm by (rule py_round_ge_minus_one)
      moreover have "confidence \<le> 1" unfolding c using v1 by (rule py_round_le_one)
      moreover have "0 \<le> confidence" if "0 \<le> sc" unfolding c using v0 [OF that] by (rule py_round_nonneg)
      ultimately show ?thesis using neg by (cases "sc < 0") auto
    qed
  qed
qed


subsection \<open>The example service\<close>

lemma example_model: "model example_service = Some example_encoder"
  by (simp add: example_service_def)

lemma example_embeddings_nonempty: "category_embeddings example_service \<noteq> []"
  by (simp add: example_service_def)

lemma example_dims: "list_all (\<lambda>(c, r). length r = 2) (category_embeddings example_service)"
  by (simp add: example_service_def)

lemma initialize_example: "initialize example_encoder example_stopwords = Inr example_service"
  by (simp add: initialize_def WASTE_CATEGORY_DESCRIPTIONS_def example_encoder_def example_service_def)

lemma semantic_table_up:
  "semantic_table [0, 1] (category_embeddings example_service) =
     [(''plastic'', 0), (''organic'', 0), (''paper'', 0), (''glass'', 4 / 5), (''metal'', 0),
      (''electronic'', 0), (''hazardous'', 0), (''textile'', 0), (''construction'', 0), (''mixed'', 0)]"
  by (simp add: semantic_table_def example_service_def cosine_def l2_norm_def dot_def)

lemma semantic_table_old:
  "semantic_table [- 3 / 5, 4 / 5] (category_embeddings example_service) =
     [(''plastic'', - 3 / 5), (''organic'', - 3 / 5), (''paper'', - 3 / 5), (''glass'', 7 / 25),
      (''metal'', - 3 / 5), (''electronic'', - 3 / 5), (''hazardous'', - 3 / 5), (''textile'', - 3 / 5),
      (''construction'', - 3 / 5), (''mixed'', - 3 / 5)]"
  by (simp add: semantic_table_def example_service_def cosine_def l2_norm_def dot_def)

lemma semantic_table_zzz:
  "semantic_table [- 3 / 5, - 4 / 5] (category_embeddings example_service) =
     [(''plastic'', - 3 / 5), (''organic'', - 3 / 5), (''paper'', - 3 / 5), (''glass'', - 1),
      (''metal'', - 3 / 5), (''electronic'', - 3 / 5), (''hazardous'', - 3 / 5), (''textile'', - 3 / 5),
      (''construction'', - 3 / 5), (''mixed'', - 3 / 5)]"
  by (simp add: semantic_table_def example_service_def cosine_def l2_norm_def dot_def)

lemma best_up: "best_entry (semantic_table [0, 1] (category_embeddings example_service)) = Some (''glass'', 4 / 5)"
  by (simp only: semantic_table_up) (simp add: best_entry_def)

lemma best_old: "best_entry (semantic_table [- 3 / 5, 4 / 5] (category_embeddings example_service)) = Some (''glass'', 7 / 25)"
  by (simp only: semantic_table_old) (simp add: best_entry_def)

lemma best_zzz: "best_entry (semantic_table [- 3 / 5, - 4 / 5] (category_embeddings example_service)) = Some (''plastic'', - 3 / 5)"
  by (simp only: semantic_table_zzz) (simp add: best_entry_def)

lemmas keyword_eval = keyword_table_def keyword_score_def keyword_matches_def WASTE_CATEGORIES_def
  str_lower_def lower_char_def str_split_def is_space_def

lemma keyword_table_1: "keyword_table ''broken glass bottle near the road'' = [(''plastic'', 1 / 15), (''glass'', 4 / 9)]"
  by (simp add: keyword_eval)

lemma keyword_table_3: "keyword_table ''old glass jar shards'' = [(''glass'', 2 / 9)]"
  by (simp add: keyword_eval)

lemma keyword_table_4: "keyword_table ''zzz zzz zzz'' = []"
  by (simp add: keyword_eval)

lemma keyword_table_6: "keyword_table ''crash: rusty can and wire'' = [(''metal'', 2 / 11)]"
  by (simp add: keyword_eval)

lemma keyword_table_7: "keyword_table ''crash zzz'' = []"
  by (simp add: keyword_eval)


subsection \<open>The arbitration of \<open>classify_waste_type\<close>\<close>

lemma encoder_up: "example_encoder ''broken glass bottle near the road'' = Some [0, 1]"
  by (simp add: example_encoder_def)

lemma encoder_old: "example_encoder ''old glass jar shards'' = Some [- 3 / 5, 4 / 5]"
  by (simp add: example_encoder_def)

lemma encoder_zzz: "example_encoder ''zzz zzz zzz'' = Some [- 3 / 5, - 4 / 5]"
  by (simp add: example_encoder_def)

lemma encoder_crash_1: "example_encoder ''crash: rusty can and wire'' = None"
  by (simp add: example_encoder_def)

lemma encoder_crash_2: "example_encoder ''crash zzz'' = None"
  by (simp add: example_encoder_def)

lemma classify_waste_type_table:
  assumes "model self = Some encode"
    and "encode description = Some e"
    and "e \<noteq> []"
    and "list_all (\<lambda>(c, r). length r = length e) (category_embeddings self)"
    and "best_entry (semantic_table e (category_embeddings self)) = Some (cat, sc)"
  shows "classify_waste_type self description =
     Inr (if 0.50 \<le> sc
          then (cat, py_round (min (sc + dict_get (map_of (keyword_table description)) cat 0 * 0.2) 1) 2)
          else (case best_entry (keyword_table description) of
                  Some (kcat, ks) \<Rightarrow>
                    (kcat, py_round (if cat = kcat then min (min (ks * 2) 1 + sc * 0.3) 1
                                     else min (ks * 2) 1) 2)
                | None \<Rightarrow> (cat, py_round sc 2)))"
proof -
  have ne: "category_embeddings self \<noteq> []"
    using assms(5) by (auto simp: best_entry_def semantic_table_def)
  have sc: "semantic_scores e (category_embeddings self) = Some (semantic_table e (category_embeddings self))"
    using assms(3,4) by (rule semantic_scores_table)
  show ?thesis
    using classify_semantic_table [of encode description e "category_embeddings self" _ cat sc]
      assms(1,2,5) sc ne
    by (simp add: classify_waste_type_def split: option.splits)
qed

text \<open>
  Claim C3. Let the encoder return a vector of the dimension of the reference embeddings,
  and let the best entry of the table of cosine similarities, the semantic winner, have a
  similarity of at least 0.50. Then \<open>classify_waste_type\<close> returns that category, with
  the confidence min(similarity + keyword score of that category * 0.2, 1.0) rounded to
  two decimals, the keyword score being 0 when the category has no keyword match.
\<close>
theorem semantic_primary_rule:
  assumes "model self = Some encode"
    and "encode description = Some e"
    and "e \<noteq> []"
    and "list_all (\<lambda>(c, r). length r = length e) (category_embeddings self)"
    and "best_entry (semantic_table e (category_embeddings self)) = Some (semantic_category, semantic_confidence)"
    and "0.50 \<le> semantic_confidence"
  shows "classify_waste_type self description =
     Inr (semantic_category,
          py_round (min (semantic_confidence
                         + dict_get (map_of (keyword_table description)) semantic_category 0 * 0.2) 1.0) 2)"
  using classify_waste_type_table [OF assms(1-5)] assms(6) by simp

theorem semantic_primary_rule_witness:
  "best_entry (semantic_table [0, 1] (category_embeddings example_service)) = Some (''glass'', 4 / 5) \<and>
   classify_waste_type example_service ''broken glass bottle near the road'' = Inr (''glass'', 89 / 100)"
proof -
  have d: "list_all (\<lambda>(c, r). length r = length [0, 1::real]) (category_embeddings example_service)"
    by (simp add: example_service_def)
  have "classify_waste_type example_service ''broken glass bottle near the road'' =
     Inr (''glass'', py_round (min (4 / 5
            + dict_get (map_of (keyword_table ''broken glass bottle near the road'')) ''glass'' 0 * 0.2) 1.0) 2)"
    by (rule semantic_primary_rule [OF example_model encoder_up _ d best_up]) simp_all
  then show ?thesis
    by (simp add: best_up keyword_table_1 dict_get_def py_round_def round_half_even_def Let_def)
qed

text \<open>
  Claim C4. Let the semantic winner have a similarity below 0.50 and let some category
  have a keyword match. Then \<open>classify_waste_type\<close> returns the best entry of the
  keyword table, with the confidence min(score * 2, 1.0), to which similarity * 0.3 is
  added (the sum capped at 1.0) only if that category is the semantic winner, rounded to
  two decimals.
\<close>
theorem keyword_primary_rule:
  assumes "model self = Some encode"
    and "encode description = Some e"
    and "e \<noteq> []"
    and "list_all (\<lambda>(c, r). length r = length e) (category_embeddings self)"
    and "best_entry (semantic_table e (category_embeddings self)) = Some (semantic_category, semantic_confidence)"
    and "semantic_confidence < 0.50"
    and "keyword_table description \<noteq> []"
  shows "\<exists>keyword_category score.
     best_entry (keyword_table description) = Some (keyword_category, score) \<and>
     classify_waste_type self description =
       Inr (keyword_category,
            py_round (if keyword_category = semantic_category
                      then min (min (score * 2) 1.0 + semantic_confidence * 0.3) 1.0
                      else min (score * 2) 1.0) 2)"
proof -
  from assms(7) obtain p where p: "best_entry (keyword_table description) = Some p"
    using best_entry_None [of "keyword_table description"] by (cases "best_entry (keyword_table description)") auto
  obtain kc ks where pk: "p = (kc, ks)" by (cases p)
  show ?thesis
    using classify_waste_type_table [OF assms(1-5)] assms(6) p pk
    by (auto simp: eq_commute [of semantic_category])
qed

theorem keyword_primary_rule_witness:
  "best_entry (semantic_table [- 3 / 5, 4 / 5] (category_embeddings example_service)) = Some (''glass'', 7 / 25) \<and>
   keyword_table ''old glass jar shards'' = [(''glass'', 2 / 9)] \<and>
   classify_waste_type example_service ''old glass jar shards'' = Inr (''glass'', 53 / 100)"
proof -
  have d: "list_all (\<lambda>(c, r). length r = length [- 3 / 5, 4 / 5::real]) (category_embeddings example_service)"
    by (simp add: example_service_def)
  have "\<exists>keyword_category score.
     best_entry (keyword_table ''old glass jar shards'') = Some (keyword_category, score) \<and>
     classify_waste_type example_service ''old glass jar shards'' =
       Inr (keyword_category,
            py_round (if keyword_category = ''glass''
                      then min (min (score * 2) 1.0 + 7 / 25 * 0.3) 1.0
                      else min (score * 2) 1.0) 2)"
    by (rule keyword_primary_rule [OF example_model encoder_old _ d best_old])
       (simp_all add: keyword_table_3)
  then obtain kc score where
    b: "best_entry (keyword_table ''old glass jar shards'') = Some (kc, score)" and
    c: "classify_waste_type example_service ''old glass jar shards'' =
       Inr (kc, py_round (if kc = ''glass''
                          then min (min (score * 2) 1.0 + 7 / 25 * 0.3) 1.0
                          else min (score * 2) 1.0) 2)"
    by blast
  have "best_entry (keyword_table ''old glass jar shards'') = Some (''glass'', 2 / 9)"
    by (simp only: keyword_table_3) (simp add: best_entry_def)
  with b have k: "kc = ''glass''" "score = 2 / 9" by simp_all
  have r: "py_round (min (min (2 / 9 * 2) 1.0 + 7 / 25 * 0.3) 1.0) 2 = 53 / 100"
    by (simp add: py_round_def round_half_even_def Let_def)
  have "classify_waste_type example_service ''old glass jar shards'' = Inr (''glass'', 53 / 100)"
    using c unfolding k by (simp add: py_round_def round_half_even_def Let_def)
  then show ?thesis
    using best_old keyword_table_3 by (intro conjI)
qed

text \<open>
  Claim C9. When the encoder raises on the description, \<open>classify_waste_type\<close> does not
  fail: it returns the category with the highest keyword score, with the confidence
  min(score * 2, 1.0) rounded to two decimals, and the pair unclassified, 0.0 when no
  keyword of any category occurs in the lower-cased text.
\<close>
theorem keyword_fallback_rule:
  assumes "model self = Some encode"
    and "category_embeddings self \<noteq> []"
    and "encode description = None"
  shows "classify_waste_type self description =
     Inr (case best_entry (keyword_table description) of
            None \<Rightarrow> (''unclassified'', 0.0)
          | Some (category, score) \<Rightarrow> (category, py_round (min (score * 2) 1.0) 2)) \<and>
     (list_all (\<lambda>(c, ks). list_all (\<lambda>k. \<not> str_contains k (str_lower description)) ks) WASTE_CATEGORIES
         \<longrightarrow> classify_waste_type self description = Inr (''unclassified'', 0.0))"
proof (rule conjI)
  have cs: "classify_semantic encode (category_embeddings self) description = None"
    using assms(3) by (simp add: classify_semantic_def)
  show a: "classify_waste_type self description =
     Inr (case best_entry (keyword_table description) of
            None \<Rightarrow> (''unclassified'', 0.0)
          | Some (category, score) \<Rightarrow> (category, py_round (min (score * 2) 1.0) 2))"
    using assms(1,2) cs
    by (simp add: classify_waste_type_def classify_by_keywords_only_def Let_def
        py_max_by_best_entry keyword_scores_table split: option.splits prod.splits)
  show "list_all (\<lambda>(c, ks). list_all (\<lambda>k. \<not> str_contains k (str_lower description)) ks) WASTE_CATEGORIES
         \<longrightarrow> classify_waste_type self description = Inr (''unclassified'', 0.0)"
  proof
    assume "list_all (\<lambda>(c, ks). list_all (\<lambda>k. \<not> str_contains k (str_lower description)) ks) WASTE_CATEGORIES"
    then have "filter (\<lambda>(c, ks). keyword_matches description ks \<noteq> []) WASTE_CATEGORIES = []"
      by (auto simp: filter_empty_conv list_all_iff keyword_matches_def)
    then have "keyword_table description = []" by (simp add: keyword_table_def)
    then have "best_entry (keyword_table description) = None" by (simp add: best_entry_def)
    with a show "classify_waste_type self description = Inr (''unclassified'', 0.0)" by simp
  qed
qed

theorem keyword_fallback_rule_witness:
  "example_encoder ''crash: rusty can and wire'' = None \<and>
   classify_waste_type example_service ''crash: rusty can and wire'' = Inr (''metal'', 36 / 100) \<and>
   classify_waste_type example_service ''crash zzz'' = Inr (''unclassified'', 0)"
proof -
  have a: "classify_waste_type example_service ''crash: rusty can and wire'' = Inr (''metal'', 36 / 100)"
    using keyword_fallback_rule [OF example_model example_embeddings_nonempty encoder_crash_1]
    by (simp only: keyword_table_6) (simp add: best_entry_def py_round_def round_half_even_def Let_def)
  have b: "classify_waste_type example_service ''crash zzz'' = Inr (''unclassified'', 0)"
    using keyword_fallback_rule [OF example_model example_embeddings_nonempty encoder_crash_2]
    by (simp only: keyword_table_7) (simp add: best_entry_def)
  from a b encoder_crash_1 show ?thesis by (intro conjI)
qed

lemma classify_zzz: "classify_waste_type example_service ''zzz zzz zzz'' = Inr (''plastic'', - 3 / 5)"
proof -
  have d: "list_all (\<lambda>(c, r). length r = length [- 3 / 5, - 4 / 5::real]) (category_embeddings example_service)"
    by (simp add: example_service_def)
  have r: "py_round (- 3 / 5) 2 = - 3 / 5"
    by (simp add: py_round_def round_half_even_def Let_def)
  have "classify_waste_type example_service ''zzz zzz zzz'' = Inr (''plastic'', py_round (- 3 / 5) 2)"
    using classify_waste_type_table [OF example_model encoder_zzz _ d best_zzz]
    by (simp only: keyword_table_4) (simp add: best_entry_def)
  then show ?thesis by (simp only: r)
qed

text \<open>
  Claim C2, as stated, on the pass-through path: the encoder of the example service maps
  the text to a vector whose cosine similarity to every reference embedding is negative,
  no keyword occurs in the text, and the confidence returned is -0.6.
\<close>
theorem negative_confidence_counterexample:
  "classify_waste_type example_service ''zzz zzz zzz'' = Inr (''plastic'', - 3 / 5)"
  by (rule classify_zzz)

text \<open>
  Claim C2, amended. Whatever the encoder returns, a confidence returned by
  \<open>classify_waste_type\<close> lies between -1 and 1; it is at least 0 unless the encoder
  returned a vector whose cosine similarity to every reference embedding is negative.
  So the confidence is in the unit interval on the path of a trusted semantic winner and on
  the keyword fallback path, and on the other two paths whenever the best similarity is
  not negative.
\<close>
theorem confidence_bounds:
  assumes "classify_waste_type self description = Inr (category, confidence)"
  shows "- 1 \<le> confidence \<and> confidence \<le> 1 \<and>
         (0 \<le> confidence \<or>
          (\<exists>encode e. model self = Some encode \<and> encode description = Some e \<and>
             list_all (\<lambda>(c, r). cosine e r < 0) (category_embeddings self)))"
proof -
  from assms obtain encode where m: "model self = Some encode"
    by (auto simp: classify_waste_type_def split: option.splits)
  show ?thesis
  proof (cases "classify_semantic encode (category_embeddings self) description")
    case None
    with assms m have "classify_by_keywords_only description = (category, confidence)"
      by (auto simp: classify_waste_type_def split: if_splits)
    from keywords_only_bounds [OF this] show ?thesis by simp
  next
    case (Some res)
    with assms m have res: "classify_semantic encode (category_embeddings self) description = Some (category, confidence)"
      by (auto simp: classify_waste_type_def split: if_splits)
    then obtain e where e: "encode description = Some e"
      by (auto elim!: classify_semantic_Some)
    from semantic_bounds [OF res e] m e show ?thesis by auto
  qed
qed

theorem confidence_bounds_witness:
  "classify_waste_type example_service ''zzz zzz zzz'' = Inr (''plastic'', - 3 / 5) \<and>
   (\<exists>encode e. model example_service = Some encode \<and> encode ''zzz zzz zzz'' = Some e \<and>
      list_all (\<lambda>(c, r). cosine e r < 0) (category_embeddings example_service))"
  using confidence_bounds [OF classify_zzz] classify_zzz by simp


subsection \<open>Similarity search\<close>

lemma similarity_loop_char:
  "similarity_loop q t xs acc =
     (if list_ex (raises q) xs then None
      else Some (acc @ map (\<lambda>i. (i, similarity_of q i)) (filter (hit q t) xs)))"
proof (induction xs arbitrary: acc)
  case Nil
  then show ?case by simp
next
  case (Cons i xs)
  show ?case
  proof (cases "incident_embedding i")
    case None
    then have "\<not> raises q i" "\<not> hit q t i" by (simp_all add: raises_def hit_def)
    with None show ?thesis using Cons.IH by simp
  next
    case (Some v)
    show ?thesis
    proof (cases "v = []")
      case True
      with Some have "\<not> raises q i" "\<not> hit q t i" by (simp_all add: raises_def hit_def)
      with Some True show ?thesis using Cons.IH by simp
    next
      case False
      show ?thesis
      proof (cases "length q = length v")
        case True
        with False have c: "cosine_similarity q v = Some (cosine q v)"
          by (intro cosine_similarity_cosine) auto
        have "\<not> raises q i" "hit q t i \<longleftrightarrow> t \<le> cosine q v" "similarity_of q i = cosine q v"
          using Some False True by (simp_all add: raises_def hit_def similarity_of_def)
        with Some False c show ?thesis using Cons.IH by simp
      next
        case ne: False
        then have c: "cosine_similarity q v = None" by (simp add: cosine_similarity_def)
        have "raises q i" using Some False ne by (simp add: raises_def)
        with Some False c show ?thesis by simp
      qed
    qed
  qed
qed

lemma insort_key_pair:
  assumes "\<forall>p \<in> set ps. snd p = f (fst p)"
  shows "map fst (insort_key (\<lambda>p. - snd p) (x, f x) ps) = insort_key (\<lambda>i. - f i) x (map fst ps)"
  using assms by (induction ps) auto

lemma sort_key_pair:
  fixes f :: "'a \<Rightarrow> real"
  shows "map fst (sort_key (\<lambda>p. - snd p) (map (\<lambda>i. (i, f i)) xs)) = sort_key (\<lambda>i. - f i) xs"
proof (induction xs)
  case Nil
  then show ?case by simp
next
  case (Cons x xs)
  have "\<forall>p \<in> set (sort_key (\<lambda>p. - snd p) (map (\<lambda>i. (i, f i)) xs)). snd p = f (fst p)"
    by auto
  from insort_key_pair [OF this] Cons show ?case by simp
qed

lemma py_sorted_desc_pairs:
  "map fst (py_sorted_desc snd (map (\<lambda>i. (i, f i)) xs)) = py_sorted_desc f xs"
  by (simp add: py_sorted_desc_def sort_key_pair)

lemma find_similar_char:
  "find_similar_incidents db ex q (Some t) limit =
     (if list_ex (raises q) (filter (\<lambda>i. incident_id i \<noteq> ex) db) then []
      else py_slice_to limit (py_sorted_desc (similarity_of q) (filter (qualifies ex q t) db)))"
proof -
  let ?all = "filter (\<lambda>i. incident_id i \<noteq> ex \<and> incident_embedding i \<noteq> None) db"
  have r: "list_ex (raises q) ?all = list_ex (raises q) (filter (\<lambda>i. incident_id i \<noteq> ex) db)"
    by (auto simp: list_ex_iff raises_def split: option.splits)
  have f: "filter (hit q t) ?all = filter (qualifies ex q t) db"
    by (induction db) (auto simp: hit_def qualifies_def split: option.splits)
  have m: "map fst (py_slice_to limit ps) = py_slice_to limit (map fst ps)" for ps :: "(incident \<times> real) list"
    by (simp add: py_slice_to_def take_map)
  show ?thesis
  proof (cases "?all = []")
    case True
    then have "filter (qualifies ex q t) db = []" using f by simp
    moreover have "\<not> list_ex (raises q) ?all" using True by simp
    ultimately show ?thesis using True r
      by (simp add: find_similar_incidents_def py_slice_to_def py_sorted_desc_def)
  next
    case False
    then show ?thesis
      using r f
      by (simp add: find_similar_incidents_def similarity_loop_char m py_sorted_desc_pairs Let_def)
  qed
qed

lemma filter_le_takeWhile:
  fixes g :: "'a \<Rightarrow> real"
  assumes "sorted (map g xs)"
  shows "filter (\<lambda>x. g x \<le> c) xs = takeWhile (\<lambda>x. g x \<le> c) xs"
  using assms
proof (induction xs)
  case Nil
  then show ?case by simp
next
  case (Cons x xs)
  show ?case
  proof (cases "g x \<le> c")
    case True
    with Cons show ?thesis by simp
  next
    case False
    have "\<forall>y \<in> set xs. \<not> g y \<le> c"
      using Cons.prems False by auto
    then have "filter (\<lambda>x. g x \<le> c) xs = []" by (simp add: filter_empty_conv)
    with False show ?thesis by simp
  qed
qed

lemma py_slice_to_take_subset: "set (py_slice_to l (take n xs)) \<subseteq> set (py_slice_to l xs)"
proof (cases "0 \<le> l")
  case True
  have "take (nat l) (take n xs) = take (min (nat l) n) xs" by simp
  moreover have "set (take (min (nat l) n) xs) \<subseteq> set (take (nat l) xs)"
    by (rule set_take_subset_set_take) simp
  ultimately show ?thesis using True by (simp add: py_slice_to_def)
next
  case False
  let ?k = "nat (- l)"
  have "take (length (take n xs) - ?k) (take n xs) = take (min (min (length xs) n - ?k) n) xs"
    by simp
  moreover have "set (take (min (min (length xs) n - ?k) n) xs) \<subseteq> set (take (length xs - ?k) xs)"
    by (rule set_take_subset_set_take) auto
  ultimately show ?thesis using False by (simp add: py_slice_to_def)
qed

lemma qualifies_mono:
  assumes "t1 \<le> t2"
  shows "qualifies ex q t2 i \<longleftrightarrow> qualifies ex q t1 i \<and> t2 \<le> similarity_of q i"
  using assms by (auto simp: qualifies_def similarity_of_def split: option.splits)

lemma ranked_prefix:
  assumes "t1 \<le> t2"
  shows "\<exists>n. py_sorted_desc (similarity_of q) (filter (qualifies ex q t2) db) =
              take n (py_sorted_desc (similarity_of q) (filter (qualifies ex q t1) db))"
proof -
  let ?g = "\<lambda>i. - similarity_of q i"
  let ?S1 = "filter (qualifies ex q t1) db"
  have "filter (qualifies ex q t2) db = filter (\<lambda>i. ?g i \<le> - t2) ?S1"
    using qualifies_mono [OF assms] by (auto intro: filter_cong simp: conj_commute)
  then have "sort_key ?g (filter (qualifies ex q t2) db) = filter (\<lambda>i. ?g i \<le> - t2) (sort_key ?g ?S1)"
    by (simp add: filter_sort)
  also have "\<dots> = takeWhile (\<lambda>i. ?g i \<le> - t2) (sort_key ?g ?S1)"
    by (rule filter_le_takeWhile) simp
  also have "\<dots> = take (length (takeWhile (\<lambda>i. ?g i \<le> - t2) (sort_key ?g ?S1))) (sort_key ?g ?S1)"
    by (rule takeWhile_eq_take)
  finally show ?thesis unfolding py_sorted_desc_def by blast
qed

text \<open>
  Claim C7. For every table of incidents, query embedding, excluded identifier and limit
  (negative limits and malformed vectors included) and every pair of thresholds
  \<open>t1 < t2\<close>, the incidents returned with the threshold \<open>t2\<close> are among those returned
  with \<open>t1\<close>.
\<close>
theorem threshold_monotone:
  assumes "t1 < t2"
  shows "set (find_similar_incidents db exclude_id q (Some t2) limit)
           \<subseteq> set (find_similar_incidents db exclude_id q (Some t1) limit)"
proof -
  from assms have "t1 \<le> t2" by simp
  from ranked_prefix [OF this, of q exclude_id db] obtain n where
    "py_sorted_desc (similarity_of q) (filter (qualifies exclude_id q t2) db) =
       take n (py_sorted_desc (similarity_of q) (filter (qualifies exclude_id q t1) db))" ..
  then show ?thesis
    using py_slice_to_take_subset [of limit n "py_sorted_desc (similarity_of q) (filter (qualifies exclude_id q t1) db)"]
    by (simp add: find_similar_char)
qed

lemma well_formed_no_raise:
  assumes "well_formed ex q db"
  shows "\<not> list_ex (raises q) (filter (\<lambda>i. incident_id i \<noteq> ex) db)"
  using assms by (auto simp: well_formed_def list_ex_iff list_all_iff raises_def split: option.splits)

lemma py_sorted_desc_sorted:
  "sorted_wrt (\<lambda>a b. f b \<le> f a) (py_sorted_desc f xs)"
proof -
  have "sorted (map (\<lambda>x. - f x) (sort_key (\<lambda>x. - f x) xs))" by simp
  then show ?thesis by (simp add: py_sorted_desc_def sorted_map)
qed

text \<open>
  Claim C5, amended. When every candidate embedding that is read has the dimension of the
  query and the limit is not negative, \<open>find_similar_incidents\<close> returns exactly the
  candidates with an identifier other than the excluded one and a non-null, non-empty
  embedding whose cosine similarity to the query is at least the threshold, sorted by
  descending similarity and truncated to the limit; without a threshold the configured
  0.75 is used; an empty table gives the empty result.
\<close>
theorem find_similar_refines:
  "(well_formed exclude_id q db \<and> 0 \<le> limit \<longrightarrow>
      find_similar_incidents db exclude_id q (Some t) limit = find_similar_spec db exclude_id q t limit \<and>
      find_similar_incidents db exclude_id q None limit = find_similar_spec db exclude_id q 0.75 limit \<and>
      set (find_similar_incidents db exclude_id q (Some t) limit) \<subseteq> {i \<in> set db. qualifies exclude_id q t i} \<and>
      sorted_wrt (\<lambda>a b. similarity_of q b \<le> similarity_of q a)
        (find_similar_incidents db exclude_id q (Some t) limit) \<and>
      int (length (find_similar_incidents db exclude_id q (Some t) limit)) \<le> limit) \<and>
   find_similar_incidents [] exclude_id q threshold limit = []"
proof (intro conjI impI)
  assume a: "well_formed exclude_id q db \<and> 0 \<le> limit"
  have d: "find_similar_incidents db exclude_id q None limit
             = find_similar_incidents db exclude_id q (Some (0.75)) limit"
    by (simp add: find_similar_incidents_def SIMILARITY_THRESHOLD_def)
  have e: "find_similar_incidents db exclude_id q (Some t') limit = find_similar_spec db exclude_id q t' limit" for t'
    using a well_formed_no_raise [of exclude_id q db]
    by (simp add: find_similar_char find_similar_spec_def py_slice_to_def)
  show "find_similar_incidents db exclude_id q (Some t) limit = find_similar_spec db exclude_id q t limit"
    by (rule e)
  show "find_similar_incidents db exclude_id q None limit = find_similar_spec db exclude_id q 0.75 limit"
    using d e by simp
  show "set (find_similar_incidents db exclude_id q (Some t) limit) \<subseteq> {i \<in> set db. qualifies exclude_id q t i}"
    unfolding e find_similar_spec_def py_sorted_desc_def
    using set_take_subset [of "nat limit" "sort_key (\<lambda>x. - similarity_of q x) (filter (qualifies exclude_id q t) db)"]
    by auto
  show "sorted_wrt (\<lambda>a b. similarity_of q b \<le> similarity_of q a)
        (find_similar_incidents db exclude_id q (Some t) limit)"
    unfolding e find_similar_spec_def
    by (intro sorted_wrt_take py_sorted_desc_sorted)
  show "int (length (find_similar_incidents db exclude_id q (Some t) limit)) \<le> limit"
    unfolding e find_similar_spec_def using a by (simp add: min_def) linarith
next
  show "find_similar_incidents [] exclude_id q threshold limit = []"
    by (simp add: find_similar_incidents_def)
qed

lemmas search_eval = find_similar_incidents_def example_db_def malformed_db_def inc_def
  cosine_similarity_def normalize_row_def l2_norm_def dot_def py_sorted_desc_def py_slice_to_def
  SIMILARITY_THRESHOLD_def Let_def

lemma search_half:
  "find_similar_incidents example_db 1 [1, 0] (Some 0.5) 5 = [inc 6 (Some [4 / 5, 3 / 5]), inc 2 (Some [3 / 5, 4 / 5])]"
  by (simp add: search_eval)

lemma search_default:
  "find_similar_incidents example_db 1 [1, 0] None 5 = [inc 6 (Some [4 / 5, 3 / 5])]"
  by (simp add: search_eval)

lemma search_three_quarters:
  "find_similar_incidents example_db 1 [1, 0] (Some 0.75) 5 = [inc 6 (Some [4 / 5, 3 / 5])]"
  by (simp add: search_eval)

lemma search_negative_limit:
  "find_similar_incidents example_db 1 [1, 0] (Some 0.5) (- 1) = [inc 6 (Some [4 / 5, 3 / 5])]"
  by (simp add: search_eval)

lemma search_malformed:
  "find_similar_incidents malformed_db 1 [1, 0] (Some 0.5) 5 = []"
  by (simp add: search_eval)

lemma malformed_qualifies: "qualifies 1 [1, 0] 0.5 (inc 2 (Some [1, 0]))"
  by (simp add: qualifies_def inc_def cosine_def dot_def l2_norm_def)

lemma example_db_well_formed: "well_formed 1 [1, 0] example_db"
  by (simp add: well_formed_def example_db_def inc_def)

text \<open>
  Claim C5, as stated, at two inputs. With the limit -1 the slice drops the last of the two
  ranked candidates and returns one incident, which is more than the limit. With a
  candidate of another dimension in the table the similarity raises, the exception is
  caught and the result is empty, although another candidate qualifies.
\<close>
theorem find_similar_counterexample:
  "length (find_similar_incidents example_db 1 [1, 0] (Some 0.5) (- 1)) = 1 \<and>
   qualifies 1 [1, 0] 0.5 (inc 2 (Some [1, 0])) \<and>
   find_similar_incidents malformed_db 1 [1, 0] (Some 0.5) 5 = []"
  using search_negative_limit malformed_qualifies search_malformed by simp

theorem find_similar_refines_witness:
  "well_formed 1 [1, 0] example_db \<and>
   find_similar_spec example_db 1 [1, 0] 0.5 5 = [inc 6 (Some [4 / 5, 3 / 5]), inc 2 (Some [3 / 5, 4 / 5])] \<and>
   find_similar_spec example_db 1 [1, 0] 0.75 5 = [inc 6 (Some [4 / 5, 3 / 5])]"
  using find_similar_refines [of 1 "[1, 0]" example_db 5 "0.5"] example_db_well_formed
    search_half search_default
  by simp

theorem threshold_monotone_witness:
  "set (find_similar_incidents example_db 1 [1, 0] (Some 0.75) 5)
     \<subseteq> set (find_similar_incidents example_db 1 [1, 0] (Some 0.5) 5) \<and>
   find_similar_incidents example_db 1 [1, 0] (Some 0.75) 5 = [inc 6 (Some [4 / 5, 3 / 5])] \<and>
   find_similar_incidents example_db 1 [1, 0] (Some 0.5) 5
     = [inc 6 (Some [4 / 5, 3 / 5]), inc 2 (Some [3 / 5, 4 / 5])]"
proof (intro conjI)
  show "set (find_similar_incidents example_db 1 [1, 0] (Some 0.75) 5)
     \<subseteq> set (find_similar_incidents example_db 1 [1, 0] (Some 0.5) 5)"
    by (rule threshold_monotone) simp
  show "find_similar_incidents example_db 1 [1, 0] (Some 0.75) 5 = [inc 6 (Some [4 / 5, 3 / 5])]"
    by (rule search_three_quarters)
  show "find_similar_incidents example_db 1 [1, 0] (Some 0.5) 5
     = [inc 6 (Some [4 / 5, 3 / 5]), inc 2 (Some [3 / 5, 4 / 5])]"
    by (rule search_half)
qed


subsection \<open>Keyword extraction\<close>










lemma py_slice_to_take: "\<exists>n. py_slice_to l xs = take n xs"
  by (auto simp: py_slice_to_def)












end
